theory Spec2Isabelle
  imports Complex_Main "HOL-Library.Sublist"
begin

section \<open>Python values\<close>

text \<open>
  A Python \<^verbatim>\<open>str\<close> is a \<^typ>\<open>string\<close>; a \<^typ>\<open>char\<close> is read as the code point of the same
  number, so the model covers the strings whose code points are below 256. On those,
  \<^verbatim>\<open>str.isspace\<close> holds of the twelve code points below, the regular expression class
  \<^verbatim>\<open>\d\<close> is \<^verbatim>\<open>0-9\<close>, and \<^verbatim>\<open>str.lower\<close> adds 32 to \<^verbatim>\<open>A-Z\<close> and to the
  capital letters of the upper half.
\<close>

definition isspace :: "char \<Rightarrow> bool" where
  "isspace c = (of_char c \<in> {9, 10, 11, 12, 13, 28, 29, 30, 31, 32, 133, 160 :: nat})"

definition strip :: "string \<Rightarrow> string" where
  "strip s = rev (dropWhile isspace (rev (dropWhile isspace s)))"

definition isdecimal :: "char \<Rightarrow> bool" where
  "isdecimal c = (48 \<le> (of_char c :: nat) \<and> (of_char c :: nat) \<le> 57)"

definition lower_char :: "char \<Rightarrow> char" where
  "lower_char c =
     (let n = (of_char c :: nat)
      in if (65 \<le> n \<and> n \<le> 90) \<or> (192 \<le> n \<and> n \<le> 214) \<or> (216 \<le> n \<and> n \<le> 222)
         then char_of (n + 32) else c)"

definition lower :: "string \<Rightarrow> string" where
  "lower s = map lower_char s"

text \<open>
  A Python \<^verbatim>\<open>float\<close>: the exact value of a finite double, or one of the three special
  values. The sign of zero is not kept.
\<close>

datatype pyfloat = Finite rat | PosInf | NegInf | NaN

text \<open>The objects a cell of a data frame holds in this pipeline.\<close>

datatype pyobj = PyNone | PyStr string | PyInt int | PyFloat pyfloat

datatype exn = ValueError | TypeError | OverflowError | AttributeError

text \<open>\<^verbatim>\<open>a <= x <= b\<close> on floats: every comparison with NaN is false.\<close>

definition float_between :: "rat \<Rightarrow> pyfloat \<Rightarrow> rat \<Rightarrow> bool" where
  "float_between a x b = (case x of Finite q \<Rightarrow> a \<le> q \<and> q \<le> b | _ \<Rightarrow> False)"

text \<open>
  \<^verbatim>\<open>int(x)\<close> of a float truncates towards zero, raises ValueError on NaN and
  OverflowError on an infinity.
\<close>

definition int_of_float :: "pyfloat \<Rightarrow> exn + int" where
  "int_of_float x =
     (case x of
        Finite q \<Rightarrow> Inr (if 0 \<le> q then \<lfloor>q\<rfloor> else \<lceil>q\<rceil>)
      | NaN \<Rightarrow> Inl ValueError
      | _ \<Rightarrow> Inl OverflowError)"

text \<open>
  What the installed Python and pandas decide, taken as given. Three builtins:
  \<^verbatim>\<open>float(s)\<close> of a string (\<open>None\<close> stands for its ValueError), \<^verbatim>\<open>round(x, 2)\<close> of a
  float, and whether \<^verbatim>\<open>re.match(email_pattern, s)\<close> finds a match. Whether the dtype of a
  column that holds the given strings is \<^verbatim>\<open>object\<close>: it is for every column of strings
  before pandas 3, and from pandas 3 on such a column has the dtype \<^verbatim>\<open>str\<close>. And what the
  C library's \<^verbatim>\<open>strftime\<close> prints for \<^verbatim>\<open>%Y\<close> of a year below 1000: glibc prints the year
  as it is (\<^verbatim>\<open>999\<close>), other libraries fill it with zeros to four digits.
\<close>

record builtins =
  float_of_str :: "string \<Rightarrow> pyfloat option"
  round2 :: "pyfloat \<Rightarrow> pyfloat"
  re_match_email :: "string \<Rightarrow> bool"
  object_dtype :: "string list \<Rightarrow> bool"
  strftime_short_year :: "nat \<Rightarrow> string"

section \<open>Data frames\<close>

text \<open>
  A data frame is its column labels and its rows, each row holding one cell per column.
  Every pandas frame is rectangular; the frames of this pipeline come from records that
  map each header to one value, so their labels are pairwise distinct.
\<close>

record 'a frame =
  columns :: "string list"
  rows :: "'a list list"

definition wf_frame :: "'a frame \<Rightarrow> bool" where
  "wf_frame df =
     (distinct (columns df) \<and> list_all (\<lambda>r. length r = length (columns df)) (rows df))"

definition get_loc :: "string list \<Rightarrow> string \<Rightarrow> nat" where
  "get_loc cols c = length (takeWhile (\<lambda>x. x \<noteq> c) cols)"

definition column :: "'a frame \<Rightarrow> string \<Rightarrow> 'a list" where
  "column df c = map (\<lambda>r. r ! get_loc (columns df) c) (rows df)"

definition assign :: "'a frame \<Rightarrow> string \<Rightarrow> 'a list \<Rightarrow> 'a frame" where
  "assign df c vs =
     df\<lparr>rows := map (\<lambda>(r, v). r[get_loc (columns df) c := v]) (zip (rows df) vs)\<rparr>"

text \<open>\<^verbatim>\<open>Series.duplicated(keep='first')\<close>: true at every value seen before.\<close>

fun duplicated_from :: "'k list \<Rightarrow> 'k list \<Rightarrow> bool list" where
  "duplicated_from seen [] = []"
| "duplicated_from seen (k # ks) = (k \<in> set seen) # duplicated_from (k # seen) ks"

definition duplicated :: "'k list \<Rightarrow> bool list" where
  "duplicated ks = duplicated_from [] ks"

text \<open>\<^verbatim>\<open>df[mask]\<close>: the rows where the mask is true, in order.\<close>

definition boolean_mask :: "'a list \<Rightarrow> bool list \<Rightarrow> 'a list" where
  "boolean_mask xs m = map fst (filter snd (zip xs m))"

section \<open>The transformer\<close>

datatype errmsg =
  Invalid_email_format
| Year_out_of_range int
| Unable_to_parse_date
| GPA_out_of_range pyfloat

record validation_error =
  field :: string
  raw_value :: string
  error :: errmsg

datatype event =
  DUPLICATE_REMOVED string
| DEPARTMENT_NORMALIZED string string

record transformer =
  validation_errors :: "validation_error list"
  transformation_log :: "event list"

definition DataTransformer_init :: transformer where
  "DataTransformer_init = \<lparr>validation_errors = [], transformation_log = []\<rparr>"

type_synonym 'a result = "(exn + 'a) \<times> transformer"

definition bind_result :: "'a result \<Rightarrow> ('a \<Rightarrow> transformer \<Rightarrow> 'b result) \<Rightarrow> 'b result" where
  "bind_result m k = (case m of (Inl e, self) \<Rightarrow> (Inl e, self) | (Inr x, self) \<Rightarrow> k x self)"

subsection \<open>Duplicates\<close>

text \<open>The loop over \<^verbatim>\<open>duplicates.iterrows()\<close>, one log entry for each row.\<close>

fun log_duplicates :: "nat \<Rightarrow> transformer \<Rightarrow> string list list \<Rightarrow> transformer" where
  "log_duplicates i self [] = self"
| "log_duplicates i self (row # rest) =
     log_duplicates i
       (self\<lparr>transformation_log := transformation_log self @ [DUPLICATE_REMOVED (row ! i)]\<rparr>)
       rest"

definition remove_duplicates :: "transformer \<Rightarrow> string frame \<Rightarrow> string frame \<times> transformer" where
  "remove_duplicates self df =
     (if ''Student ID'' \<in> set (columns df) then
        let mask = duplicated (column df ''Student ID'');
            duplicates = boolean_mask (rows df) mask;
            self' = log_duplicates (get_loc (columns df) ''Student ID'') self duplicates
        in (df\<lparr>rows := boolean_mask (rows df) (map Not mask)\<rparr>, self')
      else (df, self))"

subsection \<open>Column names\<close>

definition column_mapping :: "(string \<times> string) list" where
  "column_mapping =
     [(''Student ID'', ''student_id''), (''Email'', ''email''),
      (''First Name'', ''first_name''), (''Last Name'', ''last_name''),
      (''Year'', ''year_level''), (''Department'', ''department''),
      (''Status'', ''status''), (''Phone'', ''phone''),
      (''DOB'', ''date_of_birth''), (''GPA'', ''gpa'')]"

definition rename :: "(string \<times> string) list \<Rightarrow> string \<Rightarrow> string" where
  "rename m c = (case map_of m c of Some c' \<Rightarrow> c' | None \<Rightarrow> c)"

text \<open>
  The loop over the labels of the renamed frame: a column is stripped if its dtype is
  \<^verbatim>\<open>object\<close>, and left as it is otherwise. Where a label stands twice, \<^verbatim>\<open>df[col]\<close> is a
  frame, which has no \<^verbatim>\<open>dtype\<close>: AttributeError.
\<close>

fun strip_columns :: "builtins \<Rightarrow> string list \<Rightarrow> string frame \<Rightarrow> exn + string frame" where
  "strip_columns lib [] df = Inr df"
| "strip_columns lib (col # cols) df =
     (if length (filter (\<lambda>c. c = col) (columns df)) \<noteq> 1 then Inl AttributeError
      else if object_dtype lib (column df col)
      then strip_columns lib cols (assign df col (map strip (column df col)))
      else strip_columns lib cols df)"

definition normalize_columns :: "builtins \<Rightarrow> transformer \<Rightarrow> string frame \<Rightarrow> string frame result" where
  "normalize_columns lib self df =
     (let df = df\<lparr>columns := map (rename column_mapping) (columns df)\<rparr>
      in (strip_columns lib (columns df) df, self))"

subsection \<open>Field validators\<close>

definition log_error :: "transformer \<Rightarrow> string \<Rightarrow> string \<Rightarrow> errmsg \<Rightarrow> transformer" where
  "log_error self f v msg =
     self\<lparr>validation_errors :=
       validation_errors self @ [\<lparr>field = f, raw_value = v, error = msg\<rparr>]\<rparr>"

definition clean_email :: "builtins \<Rightarrow> transformer \<Rightarrow> string \<Rightarrow> pyobj result" where
  "clean_email lib self email =
     (if email = [] \<or> email = ''nan'' then (Inr PyNone, self)
      else let email = strip (lower email)
           in if \<not> re_match_email lib email
              then (Inr PyNone, log_error self ''email'' email Invalid_email_format)
              else (Inr (PyStr email), self))"

definition DEPARTMENT_MAPPING :: "(string \<times> string) list" where
  "DEPARTMENT_MAPPING =
     [(''cs'', ''Computer Science''), (''compsci'', ''Computer Science''),
      (''computer science'', ''Computer Science''), (''math'', ''Mathematics''),
      (''mathematics'', ''Mathematics''), (''physics'', ''Physics''),
      (''business'', ''Business Administration''),
      (''business administration'', ''Business Administration''),
      (''ee'', ''Electrical Engineering''),
      (''electrical engineering'', ''Electrical Engineering'')]"

definition STATUS_MAPPING :: "(string \<times> string) list" where
  "STATUS_MAPPING =
     [(''active'', ''active''), (''inactive'', ''inactive''),
      (''graduated'', ''graduated''), (''suspended'', ''suspended'')]"

definition map_department :: "transformer \<Rightarrow> string \<Rightarrow> pyobj result" where
  "map_department self dept =
     (if dept = [] \<or> dept = ''nan'' then (Inr PyNone, self)
      else let dept_lower = strip (lower dept)
           in case map_of DEPARTMENT_MAPPING dept_lower of
                Some mapped \<Rightarrow>
                  (Inr (PyStr mapped),
                   if mapped \<noteq> dept
                   then self\<lparr>transformation_log :=
                          transformation_log self @ [DEPARTMENT_NORMALIZED dept mapped]\<rparr>
                   else self)
              | None \<Rightarrow> (Inr (PyStr dept), self))"

definition map_status :: "transformer \<Rightarrow> string \<Rightarrow> pyobj result" where
  "map_status self status =
     (if status = [] \<or> status = ''nan'' then (Inr (PyStr ''active''), self)
      else let status_lower = strip (lower status)
           in case map_of STATUS_MAPPING status_lower of
                Some mapped \<Rightarrow> (Inr (PyStr mapped), self)
              | None \<Rightarrow> (Inr (PyStr ''active''), self))"

text \<open>
  The \<^verbatim>\<open>try\<close> block catches ValueError and TypeError only: what \<^verbatim>\<open>float\<close> raises on a
  string that is no number, and what \<^verbatim>\<open>int\<close> raises on NaN. Any other exception leaves
  the method.
\<close>

definition clean_year :: "builtins \<Rightarrow> transformer \<Rightarrow> string \<Rightarrow> pyobj result" where
  "clean_year lib self y =
     (if y = [] \<or> y = ''nan'' then (Inr PyNone, self)
      else case float_of_str lib y of
             None \<Rightarrow> (Inr PyNone, self)
           | Some x \<Rightarrow>
               (case int_of_float x of
                  Inl e \<Rightarrow> if e = ValueError \<or> e = TypeError then (Inr PyNone, self) else (Inl e, self)
                | Inr year_int \<Rightarrow>
                    if 1 \<le> year_int \<and> year_int \<le> 4 then (Inr (PyInt year_int), self)
                    else (Inr (PyInt (max 1 (min 4 year_int))),
                          log_error self ''year_level'' y (Year_out_of_range year_int))))"

text \<open>\<^verbatim>\<open>re.sub(r'\D', '', phone)\<close> keeps the decimal digits.\<close>

definition clean_phone :: "transformer \<Rightarrow> string \<Rightarrow> pyobj result" where
  "clean_phone self phone =
     (if phone = [] \<or> phone = ''nan'' then (Inr PyNone, self)
      else let digits = filter isdecimal phone
           in if length digits = 10
              then (Inr (PyStr (take 3 digits @ ''-'' @ take 3 (drop 3 digits) @ ''-'' @ drop 6 digits)),
                    self)
              else if length digits = 7
              then (Inr (PyStr (take 3 digits @ ''-'' @ drop 3 digits)), self)
              else (Inr (PyStr phone), self))"

definition clean_gpa :: "builtins \<Rightarrow> transformer \<Rightarrow> string \<Rightarrow> pyobj result" where
  "clean_gpa lib self gpa =
     (if gpa = [] \<or> gpa = ''nan'' \<or> gpa = ''##'' then (Inr PyNone, self)
      else case float_of_str lib gpa of
             None \<Rightarrow> (Inr PyNone, self)
           | Some gpa_float \<Rightarrow>
               if float_between 0 gpa_float 4 then (Inr (PyFloat (round2 lib gpa_float)), self)
               else (Inr PyNone, log_error self ''gpa'' gpa (GPA_out_of_range gpa_float)))"

subsection \<open>Dates\<close>

text \<open>
  \<^verbatim>\<open>datetime.strptime\<close> turns the format into a regular expression and takes the first
  match the backtracking search finds: \<^verbatim>\<open>%Y\<close> is \<^verbatim>\<open>\d\d\d\d\<close>, \<^verbatim>\<open>%m\<close> is
  \<^verbatim>\<open>1[0-2]|0[1-9]|[1-9]\<close>, \<^verbatim>\<open>%d\<close> is \<^verbatim>\<open>3[0-1]|[1-2]\d|0[1-9]|[1-9]| [1-9]\<close>, and
  any other character of the formats used here stands for itself. A match that leaves
  input over, or a day that the calendar does not have, is a ValueError (\<open>None\<close> below).
  \<^verbatim>\<open>strftime\<close> prints month and day on two digits and a year from 1000 on with its four
  digits; what it prints for a year below 1000 is the C library's.
\<close>

datatype fmt_item = Directive char | Literal char

fun format_items :: "string \<Rightarrow> fmt_item list" where
  "format_items [] = []"
| "format_items [c] = [Literal c]"
| "format_items (c # d # cs) =
     (if c = CHR ''%'' then Directive d # format_items cs else Literal c # format_items (d # cs))"

definition in_range :: "char \<Rightarrow> char \<Rightarrow> char \<Rightarrow> bool" where
  "in_range lo hi c = ((of_char lo :: nat) \<le> of_char c \<and> (of_char c :: nat) \<le> of_char hi)"

definition one_of :: "(char \<Rightarrow> bool) \<Rightarrow> string \<Rightarrow> (string \<times> string) list" where
  "one_of p s = (case s of a # rest \<Rightarrow> if p a then [([a], rest)] else [] | [] \<Rightarrow> [])"

definition two_of :: "(char \<Rightarrow> bool) \<Rightarrow> (char \<Rightarrow> bool) \<Rightarrow> string \<Rightarrow> (string \<times> string) list" where
  "two_of p q s =
     (case s of a # b # rest \<Rightarrow> if p a \<and> q b then [([a, b], rest)] else [] | _ \<Rightarrow> [])"

definition directive_matches :: "char \<Rightarrow> string \<Rightarrow> (string \<times> string) list" where
  "directive_matches d s =
     (if d = CHR ''Y'' then
        (if 4 \<le> length s \<and> list_all isdecimal (take 4 s) then [(take 4 s, drop 4 s)] else [])
      else if d = CHR ''m'' then
        two_of (\<lambda>c. c = CHR ''1'') (in_range CHR ''0'' CHR ''2'') s
        @ two_of (\<lambda>c. c = CHR ''0'') (in_range CHR ''1'' CHR ''9'') s
        @ one_of (in_range CHR ''1'' CHR ''9'') s
      else if d = CHR ''d'' then
        two_of (\<lambda>c. c = CHR ''3'') (in_range CHR ''0'' CHR ''1'') s
        @ two_of (in_range CHR ''1'' CHR ''2'') isdecimal s
        @ two_of (\<lambda>c. c = CHR ''0'') (in_range CHR ''1'' CHR ''9'') s
        @ one_of (in_range CHR ''1'' CHR ''9'') s
        @ two_of (\<lambda>c. c = CHR '' '') (in_range CHR ''1'' CHR ''9'') s
      else [])"

fun regex_matches :: "fmt_item list \<Rightarrow> string \<Rightarrow> ((char \<times> string) list \<times> string) list" where
  "regex_matches [] s = [([], s)]"
| "regex_matches (Literal c # items) s =
     (case s of [] \<Rightarrow> [] | a # rest \<Rightarrow> if a = c then regex_matches items rest else [])"
| "regex_matches (Directive d # items) s =
     concat (map (\<lambda>(tok, rest). map (\<lambda>(found, r). ((d, tok) # found, r)) (regex_matches items rest))
                 (directive_matches d s))"

record date =
  dt_year :: nat
  dt_month :: nat
  dt_day :: nat

text \<open>\<^verbatim>\<open>int(tok)\<close> of a matched group: surrounding white space is ignored.\<close>

definition int_of_digits :: "string \<Rightarrow> nat" where
  "int_of_digits tok = foldl (\<lambda>n c. 10 * n + (of_char c - 48)) 0 (strip tok)"

definition is_leap :: "nat \<Rightarrow> bool" where
  "is_leap y = (y mod 4 = 0 \<and> (y mod 100 \<noteq> 0 \<or> y mod 400 = 0))"

definition days_in_month :: "nat \<Rightarrow> nat \<Rightarrow> nat" where
  "days_in_month y m =
     (if m = 2 then (if is_leap y then 29 else 28)
      else if m = 4 \<or> m = 6 \<or> m = 9 \<or> m = 11 then 30 else 31)"

definition group :: "(char \<times> string) list \<Rightarrow> char \<Rightarrow> nat \<Rightarrow> nat" where
  "group found d dflt = (case map_of found d of Some tok \<Rightarrow> int_of_digits tok | None \<Rightarrow> dflt)"

definition strptime :: "string \<Rightarrow> string \<Rightarrow> date option" where
  "strptime data_string fmt =
     (case regex_matches (format_items fmt) data_string of
        [] \<Rightarrow> None
      | (found, rest) # _ \<Rightarrow>
          if rest \<noteq> [] then None
          else let y = group found CHR ''Y'' 1900;
                   m = group found CHR ''m'' 1;
                   d = group found CHR ''d'' 1
               in if 1 \<le> y \<and> y \<le> 9999 \<and> 1 \<le> m \<and> m \<le> 12 \<and> 1 \<le> d \<and> d \<le> days_in_month y m
                  then Some \<lparr>dt_year = y, dt_month = m, dt_day = d\<rparr>
                  else None)"

fun digits_of :: "nat \<Rightarrow> string" where
  "digits_of n =
     (if n < 10 then [char_of (48 + n)] else digits_of (n div 10) @ [char_of (48 + n mod 10)])"

declare digits_of.simps [simp del]

definition zfill :: "nat \<Rightarrow> string \<Rightarrow> string" where
  "zfill w s = replicate (w - length s) CHR ''0'' @ s"

definition strftime :: "builtins \<Rightarrow> date \<Rightarrow> string \<Rightarrow> string" where
  "strftime lib dt fmt =
     concat (map (\<lambda>item. case item of
                     Literal c \<Rightarrow> [c]
                   | Directive d \<Rightarrow>
                       if d = CHR ''Y'' then
                         (if 1000 \<le> dt_year dt then digits_of (dt_year dt)
                          else strftime_short_year lib (dt_year dt))
                       else if d = CHR ''m'' then zfill 2 (digits_of (dt_month dt))
                       else if d = CHR ''d'' then zfill 2 (digits_of (dt_day dt))
                       else [])
                 (format_items fmt))"

definition date_formats :: "string list" where
  "date_formats = [''%Y-%m-%d'', ''%m/%d/%Y'', ''%m-%d-%Y'', ''%d/%m/%Y'', ''%d-%m-%Y'']"

text \<open>The loop over the formats: the first one that parses returns.\<close>

fun try_formats :: "builtins \<Rightarrow> string \<Rightarrow> string list \<Rightarrow> string option" where
  "try_formats lib date_str [] = None"
| "try_formats lib date_str (fmt # fmts) =
     (case strptime (strip date_str) fmt of
        Some parsed \<Rightarrow> Some (strftime lib parsed ''%Y-%m-%d'')
      | None \<Rightarrow> try_formats lib date_str fmts)"

definition clean_date :: "builtins \<Rightarrow> transformer \<Rightarrow> string \<Rightarrow> pyobj result" where
  "clean_date lib self date_str =
     (if date_str = [] \<or> date_str = ''nan'' then (Inr PyNone, self)
      else case try_formats lib date_str date_formats of
             Some out \<Rightarrow> (Inr (PyStr out), self)
           | None \<Rightarrow> (Inr PyNone, log_error self ''date_of_birth'' date_str Unable_to_parse_date))"

subsection \<open>The pipeline\<close>

text \<open>
  \<^verbatim>\<open>Series.apply\<close>: the method is called on the cells in order; an exception ends the run.
  The result holds the objects the method returned. pandas then picks a dtype for the new
  column and may store these objects in another form (a column of ints and \<^verbatim>\<open>None\<close> is
  stored as floats, with NaN for \<^verbatim>\<open>None\<close>); that step is not part of the model, and
  nothing below speaks about the form in which a cleaned cell is stored.
\<close>

fun series_apply :: "(transformer \<Rightarrow> 'a \<Rightarrow> 'b result) \<Rightarrow> transformer \<Rightarrow> 'a list \<Rightarrow> 'b list result" where
  "series_apply f self [] = (Inr [], self)"
| "series_apply f self (x # xs) =
     bind_result (f self x) (\<lambda>v self.
       bind_result (series_apply f self xs) (\<lambda>vs self. (Inr (v # vs), self)))"

definition as_objects :: "string frame \<Rightarrow> pyobj frame" where
  "as_objects df = \<lparr>columns = columns df, rows = map (map PyStr) (rows df)\<rparr>"

text \<open>
  \<^verbatim>\<open>if c in df.columns: df[c] = df[c].apply(f)\<close>. Each of the seven columns is cleaned
  once, so the cells the method reads are still the strings of the normalized frame
  \<open>raw\<close>.
\<close>

definition clean_column ::
  "string frame \<Rightarrow> string \<Rightarrow> (transformer \<Rightarrow> string \<Rightarrow> pyobj result) \<Rightarrow> pyobj frame \<Rightarrow> transformer
     \<Rightarrow> pyobj frame result" where
  "clean_column raw c f df self =
     (if c \<in> set (columns df)
      then bind_result (series_apply f self (column raw c)) (\<lambda>vs self. (Inr (assign df c vs), self))
      else (Inr df, self))"

definition validate_and_clean :: "builtins \<Rightarrow> transformer \<Rightarrow> string frame \<Rightarrow> pyobj frame result" where
  "validate_and_clean lib self raw =
     bind_result (clean_column raw ''email'' (clean_email lib) (as_objects raw) self)
       (\<lambda>df self. bind_result (clean_column raw ''department'' map_department df self)
       (\<lambda>df self. bind_result (clean_column raw ''status'' map_status df self)
       (\<lambda>df self. bind_result (clean_column raw ''year_level'' (clean_year lib) df self)
       (\<lambda>df self. bind_result (clean_column raw ''phone'' clean_phone df self)
       (\<lambda>df self. bind_result (clean_column raw ''date_of_birth'' (clean_date lib) df self)
       (\<lambda>df self. clean_column raw ''gpa'' (clean_gpa lib) df self))))))"

definition schema_columns :: "string list" where
  "schema_columns =
     [''student_id'', ''email'', ''first_name'', ''last_name'',
      ''year_level'', ''department'', ''status'', ''phone'', ''date_of_birth'']"

definition map_to_schema :: "'a frame \<Rightarrow> 'a frame" where
  "map_to_schema df =
     (let available_columns = filter (\<lambda>c. c \<in> set (columns df)) schema_columns
      in \<lparr>columns = available_columns,
          rows = map (\<lambda>r. map (\<lambda>c. r ! get_loc (columns df) c) available_columns) (rows df)\<rparr>)"

text \<open>
  The report. Its two lists are the transformer's own list objects; the record holds what
  they contain when \<^verbatim>\<open>transform\<close> returns.
\<close>

record report =
  original_count :: int
  final_count :: int
  duplicates_removed :: int
  report_validation_errors :: "validation_error list"
  transformations :: "event list"

definition transform :: "builtins \<Rightarrow> transformer \<Rightarrow> string frame \<Rightarrow> (pyobj frame \<times> report) result" where
  "transform lib self df =
     (let n = int (length (rows df));
          (df, self) = remove_duplicates self df
      in bind_result (normalize_columns lib self df) (\<lambda>df self.
         bind_result (validate_and_clean lib self df) (\<lambda>df self.
           let df = map_to_schema df
           in (Inr (df, \<lparr>original_count = n,
                         final_count = int (length (rows df)),
                         duplicates_removed = n - int (length (rows df)),
                         report_validation_errors = validation_errors self,
                         transformations = transformation_log self\<rparr>),
               self))))"

section \<open>What the specification says\<close>

text \<open>
  The Duplicate Resolver in the specification's words: a row stays when no earlier row has
  its identifier, and is dropped otherwise.
\<close>

definition first_seen :: "('a \<Rightarrow> 'k) \<Rightarrow> 'a list \<Rightarrow> nat \<Rightarrow> bool" where
  "first_seen key rs i = (key (rs ! i) \<notin> set (map key (take i rs)))"

definition spec_keep_first :: "('a \<Rightarrow> 'k) \<Rightarrow> 'a list \<Rightarrow> 'a list" where
  "spec_keep_first key rs = map (\<lambda>i. rs ! i) (filter (first_seen key rs) [0..<length rs])"

definition spec_dropped :: "('a \<Rightarrow> 'k) \<Rightarrow> 'a list \<Rightarrow> 'a list" where
  "spec_dropped key rs =
     map (\<lambda>i. rs ! i) (filter (\<lambda>i. \<not> first_seen key rs i) [0..<length rs])"

text \<open>The canonical date form \<^verbatim>\<open>YYYY-MM-DD\<close>.\<close>

definition canonical_date :: "string \<Rightarrow> bool" where
  "canonical_date s =
     (length s = 10 \<and> s ! 4 = CHR ''-'' \<and> s ! 7 = CHR ''-'' \<and>
      list_all isdecimal (take 4 s @ take 2 (drop 5 s) @ drop 8 s))"

text \<open>
  What a run adds to the two lists of a transformer: \<open>append_logs self new\<close> is \<open>self\<close> with
  the entries of \<open>new\<close> at the end of each list. A method only ever appends (\<open>appends m\<close>):
  run on any transformer, it returns what it returns on a fresh one and leaves that
  transformer extended by the entries the fresh one would hold.
\<close>

definition append_logs :: "transformer \<Rightarrow> transformer \<Rightarrow> transformer" where
  "append_logs self new =
     \<lparr>validation_errors = validation_errors self @ validation_errors new,
      transformation_log = transformation_log self @ transformation_log new\<rparr>"

definition appends :: "(transformer \<Rightarrow> 'a \<times> transformer) \<Rightarrow> bool" where
  "appends m =
     (\<forall>self. m self = (fst (m DataTransformer_init), append_logs self (snd (m DataTransformer_init))))"

text \<open>The identifier of a row: its cell in the column \<^verbatim>\<open>Student ID\<close>.\<close>

definition student_id :: "string frame \<Rightarrow> string list \<Rightarrow> string" where
  "student_id df r = r ! get_loc (columns df) ''Student ID''"

section \<open>Example data\<close>

text \<open>
  Three columns of the frame that the integration tests build (\<^verbatim>\<open>sample_dataframe\<close> in
  \<^verbatim>\<open>tests/test_etl.py\<close>), and the values of the three builtins at the strings the
  examples of this theory use, with a pandas before 3 (every column of strings has the
  dtype \<^verbatim>\<open>object\<close>) and glibc (a year below 1000 is printed as it is).
\<close>

definition sample_dataframe :: "string frame" where
  "sample_dataframe =
     \<lparr>columns = [''Student ID'', ''Email'', ''Year''],
      rows = [[''1'', ''test1@example.com'', ''1''],
              [''2'', ''test2@example.com'', ''2''],
              [''2'', ''test2@example.com'', ''2''],
              [''3'', ''INVALID'', ''5'']]\<rparr>"

definition example_builtins :: builtins where
  "example_builtins =
     \<lparr>float_of_str = (\<lambda>s. if s = ''1'' then Some (Finite 1)
                          else if s = ''2'' then Some (Finite 2)
                          else if s = ''5'' then Some (Finite 5)
                          else if s = ''3.5'' then Some (Finite (7 / 2))
                          else if s = ''4.5'' then Some (Finite (9 / 2))
                          else if s = ''inf'' then Some PosInf
                          else None),
      round2 = (\<lambda>x. x),
      re_match_email = (\<lambda>s. s = ''test1@example.com'' \<or> s = ''test2@example.com''),
      object_dtype = (\<lambda>cells. True),
      strftime_short_year = digits_of\<rparr>"

section \<open>Duplicate removal\<close>

lemma boolean_mask_simps [simp]:
  "boolean_mask [] m = []"
  "boolean_mask xs [] = []"
  "boolean_mask (x # xs) (b # bs) = (if b then x # boolean_mask xs bs else boolean_mask xs bs)"
  by (simp_all add: boolean_mask_def)

lemma mask_from_index:
  "boolean_mask rs (map Not (duplicated_from seen (map key rs))) =
     map (\<lambda>i. rs ! i) (filter (\<lambda>i. key (rs ! i) \<notin> set seen \<union> set (map key (take i rs))) [0..<length rs])"
proof (induction rs arbitrary: seen)
  case Nil
  then show ?case by simp
next
  case (Cons r rs)
  have upt: "[0..<length (r # rs)] = 0 # map Suc [0..<length rs]"
    by (simp add: upt_conv_Cons map_Suc_upt del: upt_Suc)
  show ?case
    unfolding upt by (simp add: Cons.IH filter_map o_def conj_ac)
qed

lemma dup_from_index:
  "boolean_mask rs (duplicated_from seen (map key rs)) =
     map (\<lambda>i. rs ! i) (filter (\<lambda>i. \<not> key (rs ! i) \<notin> set seen \<union> set (map key (take i rs))) [0..<length rs])"
proof (induction rs arbitrary: seen)
  case Nil
  then show ?case by simp
next
  case (Cons r rs)
  have upt: "[0..<length (r # rs)] = 0 # map Suc [0..<length rs]"
    by (simp add: upt_conv_Cons map_Suc_upt del: upt_Suc)
  show ?case
    unfolding upt by (simp add: Cons.IH filter_map o_def disj_ac)
qed

lemma keep_first_eq: "boolean_mask rs (map Not (duplicated (map key rs))) = spec_keep_first key rs"
  by (simp add: duplicated_def mask_from_index spec_keep_first_def first_seen_def [abs_def])

lemma dropped_eq: "boolean_mask rs (duplicated (map key rs)) = spec_dropped key rs"
  by (simp add: duplicated_def dup_from_index spec_dropped_def first_seen_def [abs_def])

lemma kept_subseq: "subseq (boolean_mask rs (map Not (duplicated_from seen (map key rs)))) rs"
  by (induction rs arbitrary: seen) auto

lemma kept_keys:
  "distinct (map key (boolean_mask rs (map Not (duplicated_from seen (map key rs))))) \<and>
   set (map key (boolean_mask rs (map Not (duplicated_from seen (map key rs))))) = set (map key rs) - set seen"
proof (induction rs arbitrary: seen)
  case Nil
  then show ?case by simp
next
  case (Cons r rs)
  show ?case using Cons.IH [of "key r # seen"] by auto
qed

lemma kept_dropped_length:
  "length rs = length (boolean_mask rs (map Not (duplicated_from seen (map key rs))))
             + length (boolean_mask rs (duplicated_from seen (map key rs)))"
  by (induction rs arbitrary: seen) auto

lemma kept_count:
  "length (filter (\<lambda>r. key r = k) (boolean_mask rs (map Not (duplicated_from seen (map key rs)))))
     = (if k \<in> set (map key rs) - set seen then 1 else 0)"
proof (induction rs arbitrary: seen)
  case Nil
  then show ?case by simp
next
  case (Cons r rs)
  show ?case using Cons.IH [of "key r # seen"] by auto
qed

lemma log_duplicates_eq:
  "log_duplicates i self rs =
     self\<lparr>transformation_log := transformation_log self @ map (\<lambda>r. DUPLICATE_REMOVED (r ! i)) rs\<rparr>"
  by (induction rs arbitrary: self) simp_all

section \<open>Frames and the loop over the columns\<close>

lemma get_loc_less: "c \<in> set cols \<Longrightarrow> get_loc cols c < length cols"
  unfolding get_loc_def by (induction cols) auto

lemma get_loc_nth: "c \<in> set cols \<Longrightarrow> cols ! get_loc cols c = c"
  unfolding get_loc_def by (induction cols) auto

lemma get_loc_index: "distinct cols \<Longrightarrow> j < length cols \<Longrightarrow> get_loc cols (cols ! j) = j"
  by (metis get_loc_less get_loc_nth nth_eq_iff_index_eq nth_mem)

lemma columns_assign [simp]: "columns (assign df c vs) = columns df"
  by (simp add: assign_def)

lemma length_rows_assign [simp]:
  "length (rows (assign df c vs)) = min (length (rows df)) (length vs)"
  by (simp add: assign_def)

lemma length_column [simp]: "length (column df c) = length (rows df)"
  by (simp add: column_def)

lemma rows_assign_column:
  "rows (assign df c (map f (column df c))) =
     map (\<lambda>r. r[get_loc (columns df) c := f (r ! get_loc (columns df) c)]) (rows df)"
  by (simp add: assign_def column_def zip_map2 zip_same_conv_map)

lemma strip_row_done:
  assumes "length r = length cols"
  shows "map (\<lambda>(c, v). if c \<in> set [] then strip v else v) (zip cols r) = r"
proof -
  have "map (\<lambda>(c, v). if c \<in> set [] then strip v else v) (zip cols r) = map snd (zip cols r)"
    by (simp add: case_prod_unfold)
  then show ?thesis using assms by simp
qed

lemma strip_row_step:
  assumes "distinct cols" "length r = length cols" "col \<in> set cols" "col \<notin> set cs"
  shows "map (\<lambda>(c, v). if c \<in> set cs then strip v else v)
             (zip cols (r[get_loc cols col := strip (r ! get_loc cols col)]))
       = map (\<lambda>(c, v). if c \<in> set (col # cs) then strip v else v) (zip cols r)"
proof (rule nth_equalityI)
  show "length (map (\<lambda>(c, v). if c \<in> set cs then strip v else v)
             (zip cols (r[get_loc cols col := strip (r ! get_loc cols col)])))
      = length (map (\<lambda>(c, v). if c \<in> set (col # cs) then strip v else v) (zip cols r))"
    by simp
next
  fix j
  assume "j < length (map (\<lambda>(c, v). if c \<in> set cs then strip v else v)
             (zip cols (r[get_loc cols col := strip (r ! get_loc cols col)])))"
  then have j: "j < length cols" "j < length r" using assms(2) by simp_all
  have loc: "get_loc cols col < length cols" "cols ! get_loc cols col = col"
    using assms(3) by (simp_all add: get_loc_less get_loc_nth)
  show "map (\<lambda>(c, v). if c \<in> set cs then strip v else v)
             (zip cols (r[get_loc cols col := strip (r ! get_loc cols col)])) ! j
      = map (\<lambda>(c, v). if c \<in> set (col # cs) then strip v else v) (zip cols r) ! j"
  proof (cases "j = get_loc cols col")
    case True
    then show ?thesis using j loc assms(4) by simp
  next
    case False
    then have "cols ! j \<noteq> col"
      using assms(1) j(1) loc by (metis nth_eq_iff_index_eq)
    then show ?thesis using j False by simp
  qed
qed

lemma column_assign_other:
  assumes "distinct (columns df)" "c \<in> set (columns df)" "c' \<in> set (columns df)" "c' \<noteq> c"
  shows "column (assign df c (map f (column df c))) c' = column df c'"
proof -
  have "get_loc (columns df) c' \<noteq> get_loc (columns df) c"
    using assms(2,3,4) by (metis get_loc_nth)
  then show ?thesis
    by (simp add: column_def [of "assign df c (map f (column df c))"] rows_assign_column o_def
        column_def [of df c'])
qed

lemma strip_columns_loop:
  assumes "distinct (columns df)" "list_all (\<lambda>r. length r = length (columns df)) (rows df)"
    and "distinct cs" "set cs \<subseteq> set (columns df)"
  shows "strip_columns lib cs df =
     Inr (df\<lparr>rows := map (\<lambda>r. map (\<lambda>(c, v). if c \<in> set (filter (\<lambda>c. object_dtype lib (column df c)) cs)
                                               then strip v else v) (zip (columns df) r)) (rows df)\<rparr>)"
  using assms
proof (induction cs arbitrary: df)
  case Nil
  have "map (\<lambda>r. map (\<lambda>(c, v). if c \<in> set [] then strip v else v) (zip (columns df) r)) (rows df) = rows df"
    using Nil.prems(2) by (intro map_idI strip_row_done) (simp add: list_all_iff)
  then show ?case by simp
next
  case (Cons col cs)
  let ?i = "get_loc (columns df) col"
  let ?df = "assign df col (map strip (column df col))"
  let ?P = "\<lambda>c. object_dtype lib (column df c)"
  have once: "length (filter (\<lambda>c. c = col) (columns df)) = 1"
    using Cons.prems(1,4) by (simp add: distinct_length_filter)
  have mem: "col \<in> set (columns df)" "col \<notin> set cs"
    using Cons.prems(3,4) by simp_all
  show ?case
  proof (cases "object_dtype lib (column df col)")
    case False
    have "strip_columns lib cs df =
       Inr (df\<lparr>rows := map (\<lambda>r. map (\<lambda>(c, v). if c \<in> set (filter ?P cs) then strip v else v)
                                     (zip (columns df) r)) (rows df)\<rparr>)"
      using Cons.prems by (intro Cons.IH) simp_all
    then show ?thesis using once False by simp
  next
    case True
    have rows': "rows ?df = map (\<lambda>r. r[?i := strip (r ! ?i)]) (rows df)"
      by (rule rows_assign_column)
    have wf': "distinct (columns ?df)" "list_all (\<lambda>r. length r = length (columns ?df)) (rows ?df)"
      using Cons.prems(1,2) by (simp_all add: rows' list_all_iff)
    have same: "filter (\<lambda>c. object_dtype lib (column ?df c)) cs = filter ?P cs"
    proof (rule filter_cong [OF refl])
      fix c assume "c \<in> set cs"
      then have "c \<in> set (columns df)" "c \<noteq> col" using Cons.prems(4) mem(2) by auto
      then show "object_dtype lib (column ?df c) = object_dtype lib (column df c)"
        using column_assign_other [OF Cons.prems(1) mem(1), of c strip] by simp
    qed
    have "strip_columns lib cs ?df =
       Inr (?df\<lparr>rows := map (\<lambda>r. map (\<lambda>(c, v). if c \<in> set (filter (\<lambda>c. object_dtype lib (column ?df c)) cs)
                                                then strip v else v) (zip (columns ?df) r)) (rows ?df)\<rparr>)"
      using Cons.prems(3,4) by (intro Cons.IH wf') simp_all
    then have ih: "strip_columns lib cs ?df =
       Inr (?df\<lparr>rows := map (\<lambda>r. map (\<lambda>(c, v). if c \<in> set (filter ?P cs) then strip v else v)
                                      (zip (columns ?df) r)) (rows ?df)\<rparr>)"
      by (simp only: same)
    have "map (\<lambda>r. map (\<lambda>(c, v). if c \<in> set (filter ?P cs) then strip v else v) (zip (columns ?df) r)) (rows ?df)
        = map (\<lambda>r. map (\<lambda>(c, v). if c \<in> set (col # filter ?P cs) then strip v else v) (zip (columns df) r)) (rows df)"
    proof -
      have "map (\<lambda>(c, v). if c \<in> set (filter ?P cs) then strip v else v) (zip (columns df) (r[?i := strip (r ! ?i)]))
          = map (\<lambda>(c, v). if c \<in> set (col # filter ?P cs) then strip v else v) (zip (columns df) r)"
        if "r \<in> set (rows df)" for r
      proof (rule strip_row_step)
        show "length r = length (columns df)" using that Cons.prems(2) by (simp add: list_all_iff)
      qed (use Cons.prems(1) mem in simp_all)
      then show ?thesis unfolding rows' by (simp add: o_def)
    qed
    moreover have "?df\<lparr>rows := x\<rparr> = df\<lparr>rows := x\<rparr>" for x
      by (simp add: assign_def)
    ultimately show ?thesis using once True ih by simp
  qed
qed

lemma strip_row_labels:
  assumes "length r = length cols" "length cols' = length cols"
    and "\<And>j. j < length cols \<Longrightarrow> P (cols' ! j) = Q (cols ! j)"
  shows "map (\<lambda>(c, v). if P c then strip v else v) (zip cols' r)
       = map (\<lambda>(c, v). if Q c then strip v else v) (zip cols r)"
  using assms by (intro nth_equalityI) simp_all

text \<open>
  What the Column Normalizer returns where no two headers get the same name: the renamed
  headers, and in each row the cells of the columns of dtype \<^verbatim>\<open>object\<close> stripped.
\<close>

lemma normalize_columns_eq:
  assumes "wf_frame df" "distinct (map (rename column_mapping) (columns df))"
  shows "normalize_columns lib self df =
     (Inr \<lparr>columns = map (rename column_mapping) (columns df),
           rows = map (\<lambda>r. map (\<lambda>(c, v). if object_dtype lib (column df c) then strip v else v)
                              (zip (columns df) r)) (rows df)\<rparr>, self)"
proof -
  let ?cols = "map (rename column_mapping) (columns df)"
  let ?df = "df\<lparr>columns := ?cols\<rparr>"
  let ?P = "\<lambda>c. object_dtype lib (column ?df c)"
  have d: "distinct (columns df)"
    using assms(2) by (simp add: distinct_map)
  have len: "list_all (\<lambda>r. length r = length (columns ?df)) (rows ?df)"
    using assms(1) by (simp add: wf_frame_def)
  have loop: "strip_columns lib (columns ?df) ?df =
     Inr (?df\<lparr>rows := map (\<lambda>r. map (\<lambda>(c, v). if c \<in> set (filter ?P (columns ?df)) then strip v else v)
                                    (zip (columns ?df) r)) (rows ?df)\<rparr>)"
    using assms(2) len by (intro strip_columns_loop) simp_all
  have same: "(?cols ! j \<in> set (filter ?P ?cols)) = object_dtype lib (column df (columns df ! j))"
    if "j < length (columns df)" for j
  proof -
    have "column ?df (?cols ! j) = map (\<lambda>r. r ! j) (rows df)"
      using that assms(2) by (simp add: column_def get_loc_index del: nth_map)
    moreover have "column df (columns df ! j) = map (\<lambda>r. r ! j) (rows df)"
      using that d by (simp add: column_def get_loc_index)
    ultimately show ?thesis using that by simp
  qed
  have "map (\<lambda>(c, v). if c \<in> set (filter ?P ?cols) then strip v else v) (zip ?cols r)
      = map (\<lambda>(c, v). if object_dtype lib (column df c) then strip v else v) (zip (columns df) r)"
    if "r \<in> set (rows df)" for r
  proof (rule strip_row_labels)
    show "length r = length (columns df)" using that assms(1) by (simp add: wf_frame_def list_all_iff)
  qed (use same in simp_all)
  then have rows_eq: "map (\<lambda>r. map (\<lambda>(c, v). if c \<in> set (filter ?P ?cols) then strip v else v) (zip ?cols r)) (rows df)
      = map (\<lambda>r. map (\<lambda>(c, v). if object_dtype lib (column df c) then strip v else v)
                       (zip (columns df) r)) (rows df)"
    by (intro map_cong [OF refl])
  have sel: "columns ?df = ?cols" "rows ?df = rows df" by simp_all
  have "strip_columns lib ?cols ?df =
     Inr (?df\<lparr>rows := map (\<lambda>r. map (\<lambda>(c, v). if object_dtype lib (column df c) then strip v else v)
                                    (zip (columns df) r)) (rows df)\<rparr>)"
    using loop by (simp only: sel rows_eq)
  moreover have "?df\<lparr>rows := x\<rparr> = \<lparr>columns = ?cols, rows = x\<rparr>" for x
    by simp
  ultimately have "strip_columns lib ?cols ?df =
     Inr \<lparr>columns = ?cols,
          rows = map (\<lambda>r. map (\<lambda>(c, v). if object_dtype lib (column df c) then strip v else v)
                             (zip (columns df) r)) (rows df)\<rparr>"
    by (simp only:)
  then show ?thesis by (simp only: normalize_columns_def Let_def sel)
qed



section \<open>Methods only append to the two lists\<close>

lemma append_logs_init [simp]:
  "append_logs self DataTransformer_init = self" "append_logs DataTransformer_init self = self"
  by (simp_all add: append_logs_def DataTransformer_init_def)

lemma append_logs_assoc:
  "append_logs (append_logs a b) c = append_logs a (append_logs b c)"
  by (simp add: append_logs_def)

lemma append_logs_sel [simp]:
  "validation_errors (append_logs a b) = validation_errors a @ validation_errors b"
  "transformation_log (append_logs a b) = transformation_log a @ transformation_log b"
  by (simp_all add: append_logs_def)

lemma appendsI:
  assumes "\<And>self. m self = (r, append_logs self new)"
  shows "appends m"
  unfolding appends_def using assms [of DataTransformer_init] assms by simp

lemma appendsD:
  assumes "appends m"
  shows "\<exists>r new. \<forall>self. m self = (r, append_logs self new)"
  using assms unfolding appends_def by blast

lemma appends_if:
  "appends a \<Longrightarrow> appends b \<Longrightarrow> appends (\<lambda>self. if c then a self else b self)"
  by (cases c) simp_all

lemma appends_case_option:
  "appends a \<Longrightarrow> (\<And>v. appends (b v)) \<Longrightarrow>
     appends (\<lambda>self. case x of None \<Rightarrow> a self | Some v \<Rightarrow> b v self)"
  by (cases x) simp_all

lemma appends_case_sum:
  "(\<And>e. appends (a e)) \<Longrightarrow> (\<And>v. appends (b v)) \<Longrightarrow>
     appends (\<lambda>self. case x of Inl e \<Rightarrow> a e self | Inr v \<Rightarrow> b v self)"
  by (cases x) simp_all

lemma appends_return: "appends (\<lambda>self. (r, self))"
  by (rule appendsI [where new = DataTransformer_init]) simp

lemma log_error_append:
  "log_error self f v msg =
     append_logs self \<lparr>validation_errors = [\<lparr>field = f, raw_value = v, error = msg\<rparr>], transformation_log = []\<rparr>"
  by (simp add: log_error_def append_logs_def)

lemma appends_log_error: "appends (\<lambda>self. (r, log_error self f v msg))"
  by (rule appendsI) (rule arg_cong [OF log_error_append])

lemma log_event_append:
  "self\<lparr>transformation_log := transformation_log self @ evs\<rparr> =
     append_logs self \<lparr>validation_errors = [], transformation_log = evs\<rparr>"
  by (simp add: append_logs_def)

lemma appends_bind:
  assumes "appends m" and "\<And>x. appends (k x)"
  shows "appends (\<lambda>self. bind_result (m self) k)"
proof -
  from appendsD [OF assms(1)] obtain r new where m: "\<And>self. m self = (r, append_logs self new)"
    by blast
  show ?thesis
  proof (cases r)
    case (Inl e)
    show ?thesis by (rule appendsI [where r = "Inl e" and new = new]) (simp add: m Inl bind_result_def)
  next
    case (Inr x)
    from appendsD [OF assms(2) [of x]] obtain r' new' where k: "\<And>self. k x self = (r', append_logs self new')"
      by blast
    show ?thesis
      by (rule appendsI [where r = r' and new = "append_logs new new'"])
         (simp add: m Inr bind_result_def k append_logs_assoc)
  qed
qed

lemma appends_series_apply:
  assumes "\<And>x. appends (\<lambda>self. f self x)"
  shows "appends (\<lambda>self. series_apply f self xs)"
proof (induction xs)
  case Nil
  show ?case by (simp add: appends_return)
next
  case (Cons x xs)
  show ?case
    by (simp, intro appends_bind assms Cons.IH appends_return)
qed

lemma appends_clean_email: "appends (\<lambda>self. clean_email lib self x)"
  unfolding clean_email_def Let_def
  by (intro appends_if appends_return appends_log_error)

lemma appends_map_department: "appends (\<lambda>self. map_department self x)"
proof -
  have "appends (\<lambda>self. (Inr (PyStr mapped) :: exn + pyobj,
          if mapped \<noteq> x
          then self\<lparr>transformation_log := transformation_log self @ [DEPARTMENT_NORMALIZED x mapped]\<rparr>
          else self))" for mapped
    unfolding log_event_append by (cases "mapped = x") (auto intro: appendsI appends_return)
  then show ?thesis
    unfolding map_department_def Let_def
    by (intro appends_if appends_case_option appends_return)
qed

lemma appends_map_status: "appends (\<lambda>self. map_status self x)"
  unfolding map_status_def Let_def
  by (intro appends_if appends_case_option appends_return)

lemma appends_clean_year: "appends (\<lambda>self. clean_year lib self x)"
  unfolding clean_year_def
  by (intro appends_if appends_case_option appends_case_sum appends_return appends_log_error)

lemma appends_clean_phone: "appends (\<lambda>self. clean_phone self x)"
  unfolding clean_phone_def Let_def
  by (intro appends_if appends_return)

lemma appends_clean_date: "appends (\<lambda>self. clean_date lib self x)"
  unfolding clean_date_def
  by (intro appends_if appends_case_option appends_return appends_log_error)

lemma appends_clean_gpa: "appends (\<lambda>self. clean_gpa lib self x)"
  unfolding clean_gpa_def
  by (intro appends_if appends_case_option appends_return appends_log_error)

lemma appends_clean_column:
  assumes "\<And>x. appends (\<lambda>self. f self x)"
  shows "appends (clean_column raw c f df)"
  unfolding clean_column_def
  by (intro appends_if appends_bind appends_series_apply assms appends_return)

lemma appends_validate_and_clean: "appends (\<lambda>self. validate_and_clean lib self raw)"
  unfolding validate_and_clean_def
  by (intro appends_bind appends_clean_column appends_clean_email appends_map_department
        appends_map_status appends_clean_year appends_clean_phone appends_clean_date appends_clean_gpa)

lemma appends_normalize_columns: "appends (\<lambda>self. normalize_columns lib self df)"
  unfolding normalize_columns_def Let_def by (rule appends_return)

lemma remove_duplicates_append:
  "remove_duplicates self df =
     (fst (remove_duplicates DataTransformer_init df),
      append_logs self (snd (remove_duplicates DataTransformer_init df)))"
  by (simp add: remove_duplicates_def Let_def log_duplicates_eq append_logs_def DataTransformer_init_def)

section \<open>The shape of the frames along the pipeline\<close>

lemma bind_result_Inr:
  "bind_result m k = (Inr y, s') \<longleftrightarrow> (\<exists>x s. m = (Inr x, s) \<and> k x s = (Inr y, s'))"
  by (auto simp: bind_result_def split: prod.splits sum.splits)

lemma remove_duplicates_columns [simp]: "columns (fst (remove_duplicates self df)) = columns df"
  by (simp add: remove_duplicates_def Let_def)

lemma strip_columns_shape:
  "strip_columns lib cs df = Inr df' \<Longrightarrow> columns df' = columns df \<and> length (rows df') = length (rows df)"
  by (induction cs arbitrary: df) (auto split: if_splits)

lemma normalize_columns_shape:
  assumes "normalize_columns lib self df = (Inr df', s)"
  shows "columns df' = map (rename column_mapping) (columns df)"
    and "length (rows df') = length (rows df)" and "s = self"
  using assms strip_columns_shape [of lib "map (rename column_mapping) (columns df)"
      "df\<lparr>columns := map (rename column_mapping) (columns df)\<rparr>" df']
  by (auto simp: normalize_columns_def Let_def)

lemma series_apply_length:
  "series_apply f self xs = (Inr vs, s') \<Longrightarrow> length vs = length xs"
proof (induction xs arbitrary: self vs s')
  case Nil
  then show ?case by simp
next
  case (Cons x xs)
  then show ?case by (fastforce simp: bind_result_Inr)
qed

lemma clean_column_shape:
  assumes "clean_column raw c f df self = (Inr df', s')" "length (rows df) = length (rows raw)"
  shows "columns df' = columns df \<and> length (rows df') = length (rows raw)"
  using assms
  by (auto simp: clean_column_def bind_result_Inr split: if_splits dest!: series_apply_length)

lemma validate_and_clean_shape:
  assumes "validate_and_clean lib self raw = (Inr df', s')"
  shows "columns df' = columns raw \<and> length (rows df') = length (rows raw)"
proof -
  have start: "columns (as_objects raw) = columns raw" "length (rows (as_objects raw)) = length (rows raw)"
    by (simp_all add: as_objects_def)
  from assms obtain d1 s1 d2 s2 d3 s3 d4 s4 d5 s5 d6 s6 where steps:
    "clean_column raw ''email'' (clean_email lib) (as_objects raw) self = (Inr d1, s1)"
    "clean_column raw ''department'' map_department d1 s1 = (Inr d2, s2)"
    "clean_column raw ''status'' map_status d2 s2 = (Inr d3, s3)"
    "clean_column raw ''year_level'' (clean_year lib) d3 s3 = (Inr d4, s4)"
    "clean_column raw ''phone'' clean_phone d4 s4 = (Inr d5, s5)"
    "clean_column raw ''date_of_birth'' (clean_date lib) d5 s5 = (Inr d6, s6)"
    "clean_column raw ''gpa'' (clean_gpa lib) d6 s6 = (Inr df', s')"
    unfolding validate_and_clean_def bind_result_Inr by blast
  have 1: "columns d1 = columns raw \<and> length (rows d1) = length (rows raw)"
    using clean_column_shape [OF steps(1)] start by simp
  have 2: "columns d2 = columns raw \<and> length (rows d2) = length (rows raw)"
    using clean_column_shape [OF steps(2)] 1 by simp
  have 3: "columns d3 = columns raw \<and> length (rows d3) = length (rows raw)"
    using clean_column_shape [OF steps(3)] 2 by simp
  have 4: "columns d4 = columns raw \<and> length (rows d4) = length (rows raw)"
    using clean_column_shape [OF steps(4)] 3 by simp
  have 5: "columns d5 = columns raw \<and> length (rows d5) = length (rows raw)"
    using clean_column_shape [OF steps(5)] 4 by simp
  have 6: "columns d6 = columns raw \<and> length (rows d6) = length (rows raw)"
    using clean_column_shape [OF steps(6)] 5 by simp
  show ?thesis
    using clean_column_shape [OF steps(7)] 6 by simp
qed

lemma map_to_schema_shape [simp]:
  "columns (map_to_schema df) = filter (\<lambda>c. c \<in> set (columns df)) schema_columns"
  "length (rows (map_to_schema df)) = length (rows df)"
  by (simp_all add: map_to_schema_def Let_def)

lemma transform_Inr:
  assumes "transform lib self df = (Inr (out, rep), s')"
  shows "\<exists>df1 s1 df2 df3.
      remove_duplicates self df = (df1, s1) \<and>
      normalize_columns lib s1 df1 = (Inr df2, s1) \<and>
      validate_and_clean lib s1 df2 = (Inr df3, s') \<and>
      out = map_to_schema df3 \<and>
      rep = \<lparr>original_count = int (length (rows df)),
             final_count = int (length (rows out)),
             duplicates_removed = int (length (rows df)) - int (length (rows out)),
             report_validation_errors = validation_errors s',
             transformations = transformation_log s'\<rparr>"
proof -
  obtain df1 s1 where rd: "remove_duplicates self df = (df1, s1)" by (cases "remove_duplicates self df")
  from assms obtain df2 s2 df3 where
    n: "normalize_columns lib s1 df1 = (Inr df2, s2)" and
    v: "validate_and_clean lib s2 df2 = (Inr df3, s')" and
    o: "out = map_to_schema df3" and
    r: "rep = \<lparr>original_count = int (length (rows df)),
             final_count = int (length (rows out)),
             duplicates_removed = int (length (rows df)) - int (length (rows out)),
             report_validation_errors = validation_errors s',
             transformations = transformation_log s'\<rparr>"
    unfolding transform_def Let_def rd by (auto simp: bind_result_Inr)
  have "s2 = s1" using n by (rule normalize_columns_shape)
  then show ?thesis using rd n v o r by blast
qed

lemma transform_shape:
  assumes "transform lib self df = (Inr (out, rep), s')"
  shows "columns out = filter (\<lambda>c. c \<in> set (map (rename column_mapping) (columns df))) schema_columns"
    and "length (rows out) = length (rows (fst (remove_duplicates self df)))"
    and "original_count rep = int (length (rows df))"
    and "final_count rep = int (length (rows out))"
    and "duplicates_removed rep = original_count rep - final_count rep"
    and "report_validation_errors rep = validation_errors s'"
    and "transformations rep = transformation_log s'"
proof -
  from transform_Inr [OF assms] obtain df1 s1 df2 df3 where
    rd: "remove_duplicates self df = (df1, s1)" and
    n: "normalize_columns lib s1 df1 = (Inr df2, s1)" and
    v: "validate_and_clean lib s1 df2 = (Inr df3, s')" and
    o: "out = map_to_schema df3" and
    r: "rep = \<lparr>original_count = int (length (rows df)),
             final_count = int (length (rows out)),
             duplicates_removed = int (length (rows df)) - int (length (rows out)),
             report_validation_errors = validation_errors s',
             transformations = transformation_log s'\<rparr>"
    by blast
  have c1: "columns df1 = columns df" using remove_duplicates_columns [of self df] rd by simp
  note n' = normalize_columns_shape [OF n]
  note v' = validate_and_clean_shape [OF v]
  show "columns out = filter (\<lambda>c. c \<in> set (map (rename column_mapping) (columns df))) schema_columns"
    using o v' n'(1) c1 by simp
  show "length (rows out) = length (rows (fst (remove_duplicates self df)))"
    using o v' n'(2) rd by simp
  show "original_count rep = int (length (rows df))" "final_count rep = int (length (rows out))"
    "duplicates_removed rep = original_count rep - final_count rep"
    "report_validation_errors rep = validation_errors s'"
    "transformations rep = transformation_log s'"
    by (simp_all add: r)
qed

lemma transform_append:
  "transform lib self df =
     (case transform lib DataTransformer_init df of
        (Inl e, new) \<Rightarrow> (Inl e, append_logs self new)
      | (Inr (out, rep), new) \<Rightarrow>
          (Inr (out, rep\<lparr>report_validation_errors := validation_errors self @ report_validation_errors rep,
                         transformations := transformation_log self @ transformations rep\<rparr>),
           append_logs self new))"
proof -
  define df1 where "df1 = fst (remove_duplicates DataTransformer_init df)"
  define d where "d = snd (remove_duplicates DataTransformer_init df)"
  define core where "core = (\<lambda>self. bind_result (normalize_columns lib self df1) (\<lambda>df self.
      bind_result (validate_and_clean lib self df) (\<lambda>df self. (Inr (map_to_schema df), self))))"
  have rd: "remove_duplicates s df = (df1, append_logs s d)" for s
    using remove_duplicates_append [of s df] by (simp add: df1_def d_def)
  have "appends core"
    unfolding core_def
    by (intro appends_bind appends_normalize_columns appends_validate_and_clean appends_return)
  from appendsD [OF this] obtain r new where core: "\<And>s. core s = (r, append_logs s new)"
    by blast
  have tr: "transform lib s df =
      (case core (append_logs s d) of
         (Inl e, s') \<Rightarrow> (Inl e, s')
       | (Inr out, s') \<Rightarrow>
           (Inr (out, \<lparr>original_count = int (length (rows df)),
                       final_count = int (length (rows out)),
                       duplicates_removed = int (length (rows df)) - int (length (rows out)),
                       report_validation_errors = validation_errors s',
                       transformations = transformation_log s'\<rparr>), s'))" for s
    unfolding transform_def Let_def rd core_def bind_result_def
    by (auto split: prod.splits sum.splits)
  show ?thesis
    unfolding tr core by (cases r) (simp_all add: append_logs_assoc)
qed

section \<open>Dates\<close>

lemma isdecimal_digit: "(k::nat) < 10 \<Longrightarrow> isdecimal (char_of (48 + k))"
  by (simp add: isdecimal_def of_char_of)

lemma digits_of_decimal: "list_all isdecimal (digits_of n)"
proof (induction n rule: digits_of.induct)
  case (1 n)
  show ?case
  proof (cases "n < 10")
    case True
    then show ?thesis by (subst digits_of.simps) (simp add: isdecimal_digit)
  next
    case False
    then show ?thesis using "1.IH" by (subst digits_of.simps) (simp add: isdecimal_digit)
  qed
qed

lemma length_digits_of: "0 < k \<Longrightarrow> n < 10 ^ k \<Longrightarrow> length (digits_of n) \<le> k"
proof (induction k arbitrary: n)
  case 0
  then show ?case by simp
next
  case (Suc k)
  show ?case
  proof (cases "n < 10")
    case True
    then show ?thesis by (subst digits_of.simps) simp
  next
    case False
    then have "0 < k" using Suc.prems(2) by (cases k) simp_all
    moreover have "n div 10 < 10 ^ k" using Suc.prems(2) by (simp add: less_mult_imp_div_less mult.commute)
    ultimately have "length (digits_of (n div 10)) \<le> k" by (rule Suc.IH)
    then show ?thesis using False by (subst digits_of.simps) simp
  qed
qed

lemma zfill_shape:
  assumes "length s \<le> w" "list_all isdecimal s"
  shows "length (zfill w s) = w \<and> list_all isdecimal (zfill w s)"
  using assms by (auto simp: zfill_def list_all_iff isdecimal_def)

lemma canonical_dateI:
  assumes "length a = 4" "length b = 2" "length c = 2"
    and "list_all isdecimal a" "list_all isdecimal b" "list_all isdecimal c"
  shows "canonical_date (a @ ''-'' @ b @ ''-'' @ c)"
  using assms by (simp add: canonical_date_def nth_append)

lemma length_digits_of_ge: "10 ^ k \<le> n \<Longrightarrow> k < length (digits_of n)"
proof (induction k arbitrary: n)
  case 0
  show ?case by (subst digits_of.simps) simp
next
  case (Suc k)
  then have "10 ^ k \<le> n div 10" by (simp add: less_eq_div_iff_mult_less_eq mult.commute)
  then have "k < length (digits_of (n div 10))" by (rule Suc.IH)
  moreover have "\<not> n < 10"
    using Suc.prems by (metis less_le_trans not_le one_le_numeral one_le_power
        mult.right_neutral mult_le_mono2 power_Suc)
  ultimately show ?case by (subst digits_of.simps) simp
qed

lemma strftime_iso:
  "strftime lib dt ''%Y-%m-%d'' =
     (if 1000 \<le> dt_year dt then digits_of (dt_year dt) else strftime_short_year lib (dt_year dt))
       @ ''-'' @ zfill 2 (digits_of (dt_month dt)) @ ''-'' @ zfill 2 (digits_of (dt_day dt))"
  by (simp add: strftime_def)

lemma days_in_month_le: "days_in_month y m \<le> 31"
  by (simp add: days_in_month_def)

lemma strptime_bounds:
  assumes "strptime s fmt = Some dt"
  shows "dt_year dt < 10 ^ 4 \<and> dt_month dt < 10 ^ 2 \<and> dt_day dt < 10 ^ 2"
proof -
  from assms obtain y m d where
    dt: "dt = \<lparr>dt_year = y, dt_month = m, dt_day = d\<rparr>" and
    b: "y \<le> 9999" "m \<le> 12" "d \<le> days_in_month y m"
    by (auto simp: strptime_def Let_def split: list.splits prod.splits if_splits)
  from b(3) days_in_month_le [of y m] have "d \<le> 31" by simp
  with b dt show ?thesis by simp
qed

lemma strftime_canonical:
  assumes "strptime s fmt = Some dt" and "1000 \<le> dt_year dt"
  shows "canonical_date (strftime lib dt ''%Y-%m-%d'')"
proof -
  note b = strptime_bounds [OF assms(1)]
  have "length (digits_of (dt_year dt)) \<le> 4"
    using b by (intro length_digits_of) simp_all
  moreover have "3 < length (digits_of (dt_year dt))"
    using assms(2) by (intro length_digits_of_ge) simp
  ultimately have y: "length (digits_of (dt_year dt)) = 4" by simp
  have m: "length (zfill 2 (digits_of (dt_month dt))) = 2 \<and> list_all isdecimal (zfill 2 (digits_of (dt_month dt)))"
    using b by (intro zfill_shape length_digits_of digits_of_decimal) simp_all
  have d: "length (zfill 2 (digits_of (dt_day dt))) = 2 \<and> list_all isdecimal (zfill 2 (digits_of (dt_day dt)))"
    using b by (intro zfill_shape length_digits_of digits_of_decimal) simp_all
  have "canonical_date (digits_of (dt_year dt) @ ''-'' @ zfill 2 (digits_of (dt_month dt)) @ ''-''
      @ zfill 2 (digits_of (dt_day dt)))"
    using y m d digits_of_decimal [of "dt_year dt"] by (intro canonical_dateI) simp_all
  then show ?thesis
    using assms(2) by (simp only: strftime_iso if_True)
qed

lemma try_formats_find:
  "try_formats lib s fmts =
     map_option (\<lambda>fmt. strftime lib (the (strptime (strip s) fmt)) ''%Y-%m-%d'')
       (find (\<lambda>fmt. strptime (strip s) fmt \<noteq> None) fmts)"
  by (induction fmts) (auto split: option.splits)

section \<open>The claims\<close>

subsection \<open>Duplicate Resolver\<close>

lemma column_student_id: "column df ''Student ID'' = map (student_id df) (rows df)"
  by (simp add: column_def student_id_def)

lemma remove_duplicates_present:
  assumes "''Student ID'' \<in> set (columns df)"
  shows "fst (remove_duplicates self df) =
           df\<lparr>rows := boolean_mask (rows df) (map Not (duplicated (map (student_id df) (rows df))))\<rparr>"
    and "snd (remove_duplicates self df) =
           self\<lparr>transformation_log := transformation_log self @
             map (\<lambda>r. DUPLICATE_REMOVED (student_id df r))
               (boolean_mask (rows df) (duplicated (map (student_id df) (rows df))))\<rparr>"
  using assms
  by (simp_all add: remove_duplicates_def Let_def column_student_id log_duplicates_eq student_id_def)

text \<open>
  C1. On a batch that has the column \<^verbatim>\<open>Student ID\<close>, the Duplicate Resolver keeps exactly
  the rows whose identifier no earlier row has, in their original order; each dropped row
  is one entry of the transformation log and none of the validation errors; and the
  report of a run that returns has \<open>original_count = final_count + duplicates_removed\<close>,
  with \<open>duplicates_removed\<close> the number of rows dropped.
\<close>

theorem remove_duplicates_first_wins:
  assumes "wf_frame df" and "''Student ID'' \<in> set (columns df)"
  shows "rows (fst (remove_duplicates self df)) = spec_keep_first (student_id df) (rows df) \<and>
         columns (fst (remove_duplicates self df)) = columns df \<and>
         subseq (rows (fst (remove_duplicates self df))) (rows df) \<and>
         distinct (map (student_id df) (rows (fst (remove_duplicates self df)))) \<and>
         set (map (student_id df) (rows (fst (remove_duplicates self df))))
           = set (map (student_id df) (rows df)) \<and>
         transformation_log (snd (remove_duplicates self df))
           = transformation_log self
             @ map (\<lambda>r. DUPLICATE_REMOVED (student_id df r)) (spec_dropped (student_id df) (rows df)) \<and>
         validation_errors (snd (remove_duplicates self df)) = validation_errors self \<and>
         length (rows df)
           = length (rows (fst (remove_duplicates self df)))
             + length (spec_dropped (student_id df) (rows df)) \<and>
         (\<forall>lib out rep self'.
            transform lib self df = (Inr (out, rep), self') \<longrightarrow>
              original_count rep = int (length (rows df)) \<and>
              final_count rep = int (length (rows (fst (remove_duplicates self df)))) \<and>
              duplicates_removed rep = int (length (spec_dropped (student_id df) (rows df))) \<and>
              original_count rep = final_count rep + duplicates_removed rep \<and>
              int (length (rows out)) = final_count rep)"
proof -
  let ?keys = "map (student_id df) (rows df)"
  let ?kept = "boolean_mask (rows df) (map Not (duplicated ?keys))"
  note rd = remove_duplicates_present [OF assms(2), of self]
  have kept: "rows (fst (remove_duplicates self df)) = ?kept"
    by (simp add: rd)
  have len: "length (rows df) = length ?kept + length (spec_dropped (student_id df) (rows df))"
    using kept_dropped_length [of "rows df" "[]" "student_id df"]
    by (simp add: duplicated_def dropped_eq [unfolded duplicated_def])
  have counts: "original_count rep = int (length (rows df)) \<and>
      final_count rep = int (length ?kept) \<and>
      duplicates_removed rep = int (length (spec_dropped (student_id df) (rows df))) \<and>
      original_count rep = final_count rep + duplicates_removed rep \<and>
      int (length (rows out)) = final_count rep"
    if "transform lib self df = (Inr (out, rep), self')" for lib out rep self'
    using transform_shape [OF that] len by (simp add: kept)
  show ?thesis
    unfolding kept
    using kept_subseq [of "rows df" "[]" "student_id df"] kept_keys [of "student_id df" "rows df" "[]"]
      len counts
    by (simp add: keep_first_eq rd dropped_eq duplicated_def [symmetric])
qed

theorem remove_duplicates_first_wins_witness:
  "wf_frame sample_dataframe \<and> ''Student ID'' \<in> set (columns sample_dataframe) \<and>
   rows (fst (remove_duplicates DataTransformer_init sample_dataframe))
     = [[''1'', ''test1@example.com'', ''1''], [''2'', ''test2@example.com'', ''2''],
        [''3'', ''INVALID'', ''5'']] \<and>
   transformation_log (snd (remove_duplicates DataTransformer_init sample_dataframe))
     = [DUPLICATE_REMOVED ''2''] \<and>
   (\<exists>out rep self'.
      transform example_builtins DataTransformer_init sample_dataframe = (Inr (out, rep), self') \<and>
      original_count rep = 4 \<and> final_count rep = 3 \<and> duplicates_removed rep = 1)"
proof -
  have wf: "wf_frame sample_dataframe" by code_simp
  have sid: "''Student ID'' \<in> set (columns sample_dataframe)" by code_simp
  have kept: "spec_keep_first (student_id sample_dataframe) (rows sample_dataframe)
      = [[''1'', ''test1@example.com'', ''1''], [''2'', ''test2@example.com'', ''2''],
         [''3'', ''INVALID'', ''5'']]"
    by code_simp
  have dropped: "spec_dropped (student_id sample_dataframe) (rows sample_dataframe)
      = [[''2'', ''test2@example.com'', ''2'']]"
    by code_simp
  have id2: "student_id sample_dataframe [''2'', ''test2@example.com'', ''2''] = ''2''"
    by code_simp
  have init: "transformation_log DataTransformer_init = []"
    by (simp add: DataTransformer_init_def)
  have n: "length (rows sample_dataframe) = 4" by code_simp
  obtain r self' where tr: "transform example_builtins DataTransformer_init sample_dataframe = (r, self')"
    by (cases "transform example_builtins DataTransformer_init sample_dataframe")
  have "\<not> isl (fst (transform example_builtins DataTransformer_init sample_dataframe))"
    by code_simp
  then obtain out rep where r: "r = Inr (out, rep)" using tr by (cases r) auto
  note T = remove_duplicates_first_wins [OF wf sid, of DataTransformer_init]
  from T have rws: "rows (fst (remove_duplicates DataTransformer_init sample_dataframe))
      = spec_keep_first (student_id sample_dataframe) (rows sample_dataframe)"
    and lg: "transformation_log (snd (remove_duplicates DataTransformer_init sample_dataframe))
      = transformation_log DataTransformer_init
        @ map (\<lambda>r. DUPLICATE_REMOVED (student_id sample_dataframe r))
            (spec_dropped (student_id sample_dataframe) (rows sample_dataframe))"
    and cnt: "original_count rep = int (length (rows sample_dataframe)) \<and>
      final_count rep = int (length (rows (fst (remove_duplicates DataTransformer_init sample_dataframe)))) \<and>
      duplicates_removed rep
        = int (length (spec_dropped (student_id sample_dataframe) (rows sample_dataframe)))"
    using tr r by blast+
  from cnt have "original_count rep = 4 \<and> final_count rep = 3 \<and> duplicates_removed rep = 1"
    by (simp add: rws kept dropped n)
  with tr r wf sid rws lg show ?thesis
    by (simp add: kept dropped id2 init)
qed

lemma kept_with_key:
  "filter (\<lambda>r. key r = k) (boolean_mask rs (map Not (duplicated_from seen (map key rs))))
     = (if k \<in> set seen then [] else take 1 (filter (\<lambda>r. key r = k) rs))"
proof (induction rs arbitrary: seen)
  case Nil
  then show ?case by simp
next
  case (Cons r rs)
  show ?case using Cons.IH [of "key r # seen"] by auto
qed

text \<open>
  C2 as the specification states it fails: two distinct rows whose identifier is empty are
  not both retained. Here the second row is dropped.
\<close>

theorem empty_identifier_counterexample:
  "wf_frame \<lparr>columns = [''Student ID'', ''Email''],
             rows = [['''', ''a@example.com''], ['''', ''b@example.com'']]\<rparr> \<and>
   ''Student ID'' \<in> set [''Student ID'', ''Email''] \<and>
   student_id \<lparr>columns = [''Student ID'', ''Email''],
               rows = [['''', ''a@example.com''], ['''', ''b@example.com'']]\<rparr>
      ['''', ''b@example.com''] = [] \<and>
   rows (fst (remove_duplicates DataTransformer_init
               \<lparr>columns = [''Student ID'', ''Email''],
                rows = [['''', ''a@example.com''], ['''', ''b@example.com'']]\<rparr>))
     = [['''', ''a@example.com'']]"
  by code_simp

text \<open>
  C2, amended. An empty identifier is an identifier like any other: of the rows whose
  \<^verbatim>\<open>Student ID\<close> is empty, the Duplicate Resolver retains the first and drops every later
  one.
\<close>

theorem empty_identifier_first_only:
  assumes "wf_frame df" and "''Student ID'' \<in> set (columns df)"
  shows "filter (\<lambda>r. student_id df r = []) (rows (fst (remove_duplicates self df)))
           = take 1 (filter (\<lambda>r. student_id df r = []) (rows df))"
  using kept_with_key [of "student_id df" "[]" "rows df" "[]"]
  by (simp add: remove_duplicates_present [OF assms(2)] duplicated_def)

theorem empty_identifier_first_only_witness:
  "wf_frame \<lparr>columns = [''Student ID'', ''Email''],
             rows = [['''', ''a@example.com''], [''7'', ''c@example.com''], ['''', ''b@example.com'']]\<rparr> \<and>
   filter (\<lambda>r. student_id \<lparr>columns = [''Student ID'', ''Email''],
             rows = [['''', ''a@example.com''], [''7'', ''c@example.com''], ['''', ''b@example.com'']]\<rparr> r = [])
     (rows (fst (remove_duplicates DataTransformer_init
        \<lparr>columns = [''Student ID'', ''Email''],
         rows = [['''', ''a@example.com''], [''7'', ''c@example.com''], ['''', ''b@example.com'']]\<rparr>)))
     = [['''', ''a@example.com'']]"
proof -
  let ?df = "\<lparr>columns = [''Student ID'', ''Email''],
             rows = [['''', ''a@example.com''], [''7'', ''c@example.com''], ['''', ''b@example.com'']]\<rparr> :: string frame"
  have wf: "wf_frame ?df" by code_simp
  have sid: "''Student ID'' \<in> set (columns ?df)" by simp
  have "take 1 (filter (\<lambda>r. student_id ?df r = []) (rows ?df)) = [['''', ''a@example.com'']]"
    by code_simp
  with empty_identifier_first_only [OF wf sid, of DataTransformer_init] wf show ?thesis
    by simp
qed

lemma format_ten:
  assumes "length d = 10"
  shows "take 3 d @ ''-'' @ take 3 (drop 3 d) @ ''-'' @ drop 6 d
     = [d ! 0, d ! 1, d ! 2, CHR ''-'', d ! 3, d ! 4, d ! 5, CHR ''-'', d ! 6, d ! 7, d ! 8, d ! 9]"
proof -
  from assms obtain a0 a1 a2 a3 a4 a5 a6 a7 a8 a9 where "d = [a0, a1, a2, a3, a4, a5, a6, a7, a8, a9]"
    by (auto simp: numeral_eq_Suc length_Suc_conv)
  then show ?thesis by simp
qed

lemma format_seven:
  assumes "length d = 7"
  shows "take 3 d @ ''-'' @ drop 3 d = [d ! 0, d ! 1, d ! 2, CHR ''-'', d ! 3, d ! 4, d ! 5, d ! 6]"
proof -
  from assms obtain a0 a1 a2 a3 a4 a5 a6 where "d = [a0, a1, a2, a3, a4, a5, a6]"
    by (auto simp: numeral_eq_Suc length_Suc_conv)
  then show ?thesis by simp
qed


subsection \<open>Field validators\<close>

lemma clean_year_cases:
  "clean_year lib self y =
     (if y = [] \<or> y = ''nan'' then (Inr PyNone, self)
      else case float_of_str lib y of
             None \<Rightarrow> (Inr PyNone, self)
           | Some NaN \<Rightarrow> (Inr PyNone, self)
           | Some PosInf \<Rightarrow> (Inl OverflowError, self)
           | Some NegInf \<Rightarrow> (Inl OverflowError, self)
           | Some (Finite q) \<Rightarrow>
               (let n = (if 0 \<le> q then \<lfloor>q\<rfloor> else \<lceil>q\<rceil>)
                in if 1 \<le> n \<and> n \<le> 4 then (Inr (PyInt n), self)
                   else (Inr (PyInt (if n < 1 then 1 else 4)),
                         log_error self ''year_level'' y (Year_out_of_range n))))"
  by (auto simp: clean_year_def int_of_float_def Let_def split: option.split pyfloat.split)

text \<open>
  C3. The year validator does not return on every input string: where \<^verbatim>\<open>float\<close> reads the
  string as an infinity (\<^verbatim>\<open>"inf"\<close>), \<^verbatim>\<open>int\<close> raises OverflowError, which the
  \<^verbatim>\<open>except (ValueError, TypeError)\<close> clause does not catch; the exception leaves the
  method and ends the whole run, with neither an unset value nor a clamped one.
\<close>

theorem clean_year_infinity_raises:
  assumes "float_of_str lib ''inf'' = Some PosInf"
  shows "clean_year lib self ''inf'' = (Inl OverflowError, self) \<and>
         fst (transform lib self \<lparr>columns = [''Year''], rows = [[''inf'']]\<rparr>) = Inl OverflowError"
proof -
  have y: "clean_year lib s ''inf'' = (Inl OverflowError, s)" for s
    using assms by (simp add: clean_year_cases)
  have rd: "remove_duplicates self \<lparr>columns = [''Year''], rows = [[''inf'']]\<rparr>
      = (\<lparr>columns = [''Year''], rows = [[''inf'']]\<rparr>, self)"
    by (simp add: remove_duplicates_def)
  have n: "normalize_columns lib self \<lparr>columns = [''Year''], rows = [[''inf'']]\<rparr>
      = (Inr \<lparr>columns = [''year_level''], rows = [[''inf'']]\<rparr>, self)"
    by (subst normalize_columns_eq) (simp_all add: wf_frame_def rename_def column_mapping_def strip_def isspace_def)
  have v: "fst (validate_and_clean lib self \<lparr>columns = [''year_level''], rows = [[''inf'']]\<rparr>)
      = Inl OverflowError"
    by (simp add: validate_and_clean_def clean_column_def as_objects_def bind_result_def
        column_def get_loc_def y)
  then obtain s' where "validate_and_clean lib self \<lparr>columns = [''year_level''], rows = [[''inf'']]\<rparr>
      = (Inl OverflowError, s')"
    by (cases "validate_and_clean lib self \<lparr>columns = [''year_level''], rows = [[''inf'']]\<rparr>") simp
  then show ?thesis
    by (simp add: y transform_def rd n bind_result_def)
qed

theorem clean_year_infinity_raises_witness:
  "float_of_str example_builtins ''inf'' = Some PosInf \<and>
   clean_year example_builtins DataTransformer_init ''inf'' = (Inl OverflowError, DataTransformer_init) \<and>
   fst (transform example_builtins DataTransformer_init \<lparr>columns = [''Year''], rows = [[''inf'']]\<rparr>)
     = Inl OverflowError"
proof -
  have h: "float_of_str example_builtins ''inf'' = Some PosInf"
    by (simp add: example_builtins_def)
  from clean_year_infinity_raises [OF h, of DataTransformer_init] h show ?thesis
    by simp
qed

text \<open>
  C4. The GPA validator returns unset without an error on an empty string, \<^verbatim>\<open>"nan"\<close> and
  \<^verbatim>\<open>"##"\<close>; the rounded value when the parsed float lies in [0.0, 4.0]; unset with one
  error when the parsed float does not (no clamping); unset without an error when the
  string does not parse. It never raises, and it records an error if and only if the string
  parses and the value is out of range.
\<close>

theorem clean_gpa_rejects_out_of_range:
  "(gpa = [] \<or> gpa = ''nan'' \<or> gpa = ''##'' \<longrightarrow> clean_gpa lib self gpa = (Inr PyNone, self)) \<and>
   (gpa \<noteq> [] \<and> gpa \<noteq> ''nan'' \<and> gpa \<noteq> ''##'' \<longrightarrow>
      (float_of_str lib gpa = None \<longrightarrow> clean_gpa lib self gpa = (Inr PyNone, self)) \<and>
      (\<forall>x. float_of_str lib gpa = Some x \<and> float_between 0 x 4 \<longrightarrow>
           clean_gpa lib self gpa = (Inr (PyFloat (round2 lib x)), self)) \<and>
      (\<forall>x. float_of_str lib gpa = Some x \<and> \<not> float_between 0 x 4 \<longrightarrow>
           clean_gpa lib self gpa
             = (Inr PyNone, log_error self ''gpa'' gpa (GPA_out_of_range x)))) \<and>
   (\<exists>v. fst (clean_gpa lib self gpa) = Inr v) \<and>
   transformation_log (snd (clean_gpa lib self gpa)) = transformation_log self \<and>
   (validation_errors (snd (clean_gpa lib self gpa)) \<noteq> validation_errors self \<longleftrightarrow>
      gpa \<noteq> [] \<and> gpa \<noteq> ''nan'' \<and> gpa \<noteq> ''##'' \<and>
      (\<exists>x. float_of_str lib gpa = Some x \<and> \<not> float_between 0 x 4))"
  by (auto simp: clean_gpa_def log_error_def split: option.splits)

theorem clean_gpa_rejects_out_of_range_witness:
  "clean_gpa example_builtins DataTransformer_init ''4.5''
     = (Inr PyNone, log_error DataTransformer_init ''gpa'' ''4.5'' (GPA_out_of_range (Finite (9 / 2)))) \<and>
   clean_gpa example_builtins DataTransformer_init ''3.5''
     = (Inr (PyFloat (round2 example_builtins (Finite (7 / 2)))), DataTransformer_init) \<and>
   clean_gpa example_builtins DataTransformer_init ''##'' = (Inr PyNone, DataTransformer_init)"
proof -
  have a: "float_of_str example_builtins ''4.5'' = Some (Finite (9 / 2))"
    "float_of_str example_builtins ''3.5'' = Some (Finite (7 / 2))"
    by (simp_all add: example_builtins_def)
  have b: "\<not> float_between 0 (Finite (9 / 2)) 4" "float_between 0 (Finite (7 / 2)) 4"
    by (simp_all add: float_between_def)
  from clean_gpa_rejects_out_of_range [of "''4.5''" example_builtins DataTransformer_init]
    clean_gpa_rejects_out_of_range [of "''3.5''" example_builtins DataTransformer_init]
    clean_gpa_rejects_out_of_range [of "''##''" example_builtins DataTransformer_init]
    a b show ?thesis
    by simp
qed

text \<open>
  C5 as the specification states it fails on the non-empty string \<^verbatim>\<open>"nan"\<close>: no format
  parses it, yet no ValidationError is recorded.
\<close>

theorem clean_date_nan_counterexample:
  "''nan'' \<noteq> [] \<and>
   find (\<lambda>fmt. strptime (strip ''nan'') fmt \<noteq> None) date_formats = None \<and>
   clean_date example_builtins DataTransformer_init ''nan'' = (Inr PyNone, DataTransformer_init) \<and>
   validation_errors (snd (clean_date example_builtins DataTransformer_init ''nan'')) = []"
  by code_simp

text \<open>
  The docstring of the date validator promises \<^verbatim>\<open>YYYY-MM-DD\<close>. With glibc a year below 1000
  comes out with fewer than four digits, which is not that form.
\<close>

lemma clean_date_short_year:
  "clean_date example_builtins DataTransformer_init ''0999-01-01''
     = (Inr (PyStr ''999-01-01''), DataTransformer_init) \<and>
   \<not> canonical_date ''999-01-01''"
  by code_simp

text \<open>
  C5, amended. For every input string that is neither empty nor the placeholder
  \<^verbatim>\<open>"nan"\<close>, the date validator tries the formats in the order \<^verbatim>\<open>%Y-%m-%d\<close>,
  \<^verbatim>\<open>%m/%d/%Y\<close>, \<^verbatim>\<open>%m-%d-%Y\<close>, \<^verbatim>\<open>%d/%m/%Y\<close>, \<^verbatim>\<open>%d-%m-%Y\<close>; the first format that
  parses the stripped string wins and its date is returned as \<^verbatim>\<open>strftime\<close> prints it with
  \<^verbatim>\<open>%Y-%m-%d\<close>; if none parses, the result is unset and one ValidationError is recorded.
  \<^verbatim>\<open>"05/15/2003"\<close> gives \<^verbatim>\<open>"2003-05-15"\<close>, and the string returned for a date whose year is
  1000 or later has the canonical form \<^verbatim>\<open>YYYY-MM-DD\<close>.
\<close>

theorem clean_date_first_format_wins:
  assumes "date_str \<noteq> []" and "date_str \<noteq> ''nan''"
  shows "date_formats = [''%Y-%m-%d'', ''%m/%d/%Y'', ''%m-%d-%Y'', ''%d/%m/%Y'', ''%d-%m-%Y''] \<and>
         clean_date lib self date_str
           = (case find (\<lambda>fmt. strptime (strip date_str) fmt \<noteq> None) date_formats of
                Some fmt \<Rightarrow>
                  (Inr (PyStr (strftime lib (the (strptime (strip date_str) fmt)) ''%Y-%m-%d'')),
                   self)
              | None \<Rightarrow>
                  (Inr PyNone, log_error self ''date_of_birth'' date_str Unable_to_parse_date)) \<and>
         (\<forall>fmt parsed.
            find (\<lambda>fmt. strptime (strip date_str) fmt \<noteq> None) date_formats = Some fmt \<and>
            strptime (strip date_str) fmt = Some parsed \<and> 1000 \<le> dt_year parsed \<longrightarrow>
              clean_date lib self date_str = (Inr (PyStr (strftime lib parsed ''%Y-%m-%d'')), self) \<and>
              canonical_date (strftime lib parsed ''%Y-%m-%d'')) \<and>
         clean_date lib self ''05/15/2003'' = (Inr (PyStr ''2003-05-15''), self)"
proof -
  have fmts: "date_formats = [''%Y-%m-%d'', ''%m/%d/%Y'', ''%m-%d-%Y'', ''%d/%m/%Y'', ''%d-%m-%Y'']"
    by (simp add: date_formats_def)
  have first: "clean_date lib self date_str
           = (case find (\<lambda>fmt. strptime (strip date_str) fmt \<noteq> None) date_formats of
                Some fmt \<Rightarrow>
                  (Inr (PyStr (strftime lib (the (strptime (strip date_str) fmt)) ''%Y-%m-%d'')),
                   self)
              | None \<Rightarrow>
                  (Inr PyNone, log_error self ''date_of_birth'' date_str Unable_to_parse_date))"
    using assms by (simp add: clean_date_def try_formats_find split: option.splits)
  have canon: "clean_date lib self date_str = (Inr (PyStr (strftime lib parsed ''%Y-%m-%d'')), self) \<and>
      canonical_date (strftime lib parsed ''%Y-%m-%d'')"
    if "find (\<lambda>fmt. strptime (strip date_str) fmt \<noteq> None) date_formats = Some fmt \<and>
        strptime (strip date_str) fmt = Some parsed \<and> 1000 \<le> dt_year parsed" for fmt parsed
    using that strftime_canonical [of "strip date_str" fmt parsed lib] by (simp add: first)
  have f: "find (\<lambda>fmt. strptime (strip ''05/15/2003'') fmt \<noteq> None) date_formats = Some ''%m/%d/%Y''"
    by code_simp
  have p: "strptime (strip ''05/15/2003'') ''%m/%d/%Y''
      = Some \<lparr>dt_year = 2003, dt_month = 5, dt_day = 15\<rparr>"
    by code_simp
  have d: "digits_of 2003 = ''2003''" "zfill 2 (digits_of 5) = ''05''" "zfill 2 (digits_of 15) = ''15''"
    by code_simp+
  have "try_formats lib ''05/15/2003'' date_formats = Some ''2003-05-15''"
    unfolding try_formats_find f by (simp add: p strftime_iso d)
  then have may: "clean_date lib self ''05/15/2003'' = (Inr (PyStr ''2003-05-15''), self)"
    by (simp add: clean_date_def)
  from fmts first canon may show ?thesis by blast
qed

theorem clean_date_first_format_wins_witness:
  "''01/02/2003'' \<noteq> [] \<and> ''01/02/2003'' \<noteq> ''nan'' \<and>
   find (\<lambda>fmt. strptime (strip ''01/02/2003'') fmt \<noteq> None) date_formats = Some ''%m/%d/%Y'' \<and>
   strptime (strip ''01/02/2003'') ''%m/%d/%Y'' = Some \<lparr>dt_year = 2003, dt_month = 1, dt_day = 2\<rparr> \<and>
   clean_date example_builtins DataTransformer_init ''01/02/2003''
     = (Inr (PyStr ''2003-01-02''), DataTransformer_init) \<and>
   canonical_date ''2003-01-02''"
proof -
  have h: "''01/02/2003'' \<noteq> []" "''01/02/2003'' \<noteq> ''nan''" by simp_all
  have f: "find (\<lambda>fmt. strptime (strip ''01/02/2003'') fmt \<noteq> None) date_formats = Some ''%m/%d/%Y''"
    by code_simp
  have p: "strptime (strip ''01/02/2003'') ''%m/%d/%Y'' = Some \<lparr>dt_year = 2003, dt_month = 1, dt_day = 2\<rparr>"
    by code_simp
  have y: "1000 \<le> dt_year \<lparr>dt_year = 2003, dt_month = 1, dt_day = 2\<rparr>"
    by simp
  have out: "strftime example_builtins \<lparr>dt_year = 2003, dt_month = 1, dt_day = 2\<rparr> ''%Y-%m-%d''
      = ''2003-01-02''"
    by code_simp
  note T = clean_date_first_format_wins [OF h, of example_builtins DataTransformer_init]
  from T f p y have "clean_date example_builtins DataTransformer_init ''01/02/2003''
        = (Inr (PyStr (strftime example_builtins \<lparr>dt_year = 2003, dt_month = 1, dt_day = 2\<rparr> ''%Y-%m-%d'')),
           DataTransformer_init) \<and>
      canonical_date (strftime example_builtins \<lparr>dt_year = 2003, dt_month = 1, dt_day = 2\<rparr> ''%Y-%m-%d'')"
    by blast
  then have "clean_date example_builtins DataTransformer_init ''01/02/2003''
        = (Inr (PyStr ''2003-01-02''), DataTransformer_init) \<and> canonical_date ''2003-01-02''"
    by (simp only: out)
  with h f p show ?thesis by (simp only: simp_thms)
qed

text \<open>
  C6 as the specification states it fails on the non-empty string \<^verbatim>\<open>"nan"\<close>: it has no
  digit, yet the validator returns unset, not the string.
\<close>

theorem clean_phone_nan_counterexample:
  "''nan'' \<noteq> [] \<and> length (filter isdecimal ''nan'') = 0 \<and>
   clean_phone DataTransformer_init ''nan'' = (Inr PyNone, DataTransformer_init) \<and>
   clean_phone DataTransformer_init ''nan'' \<noteq> (Inr (PyStr ''nan''), DataTransformer_init)"
  by code_simp

text \<open>
  C6, amended. For every input string that is neither empty nor the placeholder
  \<^verbatim>\<open>"nan"\<close>, the phone validator keeps the decimal digits of the string; ten digits are
  returned as \<^verbatim>\<open>AAA-BBB-CCCC\<close>, seven as \<^verbatim>\<open>AAA-BBBB\<close>, and with any other number of
  digits the input string is returned as it is. No error and no event is recorded.
\<close>

theorem clean_phone_formats:
  assumes "phone \<noteq> []" and "phone \<noteq> ''nan''"
  shows "(length (filter isdecimal phone) = 10 \<longrightarrow>
            clean_phone self phone =
              (Inr (PyStr [filter isdecimal phone ! 0, filter isdecimal phone ! 1,
                           filter isdecimal phone ! 2, CHR ''-'',
                           filter isdecimal phone ! 3, filter isdecimal phone ! 4,
                           filter isdecimal phone ! 5, CHR ''-'',
                           filter isdecimal phone ! 6, filter isdecimal phone ! 7,
                           filter isdecimal phone ! 8, filter isdecimal phone ! 9]), self)) \<and>
         (length (filter isdecimal phone) = 7 \<longrightarrow>
            clean_phone self phone =
              (Inr (PyStr [filter isdecimal phone ! 0, filter isdecimal phone ! 1,
                           filter isdecimal phone ! 2, CHR ''-'',
                           filter isdecimal phone ! 3, filter isdecimal phone ! 4,
                           filter isdecimal phone ! 5, filter isdecimal phone ! 6]), self)) \<and>
         (length (filter isdecimal phone) \<noteq> 10 \<and> length (filter isdecimal phone) \<noteq> 7 \<longrightarrow>
            clean_phone self phone = (Inr (PyStr phone), self))"
proof -
  let ?d = "filter isdecimal phone"
  have ten: "clean_phone self phone
      = (Inr (PyStr [?d ! 0, ?d ! 1, ?d ! 2, CHR ''-'', ?d ! 3, ?d ! 4, ?d ! 5, CHR ''-'',
                     ?d ! 6, ?d ! 7, ?d ! 8, ?d ! 9]), self)"
    if "length ?d = 10"
    using assms that format_ten [OF that] by (simp add: clean_phone_def Let_def)
  have seven: "clean_phone self phone
      = (Inr (PyStr [?d ! 0, ?d ! 1, ?d ! 2, CHR ''-'', ?d ! 3, ?d ! 4, ?d ! 5, ?d ! 6]), self)"
    if "length ?d = 7"
    using assms that format_seven [OF that] by (simp add: clean_phone_def Let_def)
  have other: "clean_phone self phone = (Inr (PyStr phone), self)"
    if "length ?d \<noteq> 10 \<and> length ?d \<noteq> 7"
    using assms that by (simp add: clean_phone_def Let_def)
  from ten seven other show ?thesis by blast
qed

theorem clean_phone_formats_witness:
  "''(555) 010-1234'' \<noteq> [] \<and> ''(555) 010-1234'' \<noteq> ''nan'' \<and>
   clean_phone DataTransformer_init ''(555) 010-1234''
     = (Inr (PyStr ''555-010-1234''), DataTransformer_init) \<and>
   clean_phone DataTransformer_init ''0101234'' = (Inr (PyStr ''010-1234''), DataTransformer_init) \<and>
   clean_phone DataTransformer_init ''12345'' = (Inr (PyStr ''12345''), DataTransformer_init)"
proof -
  have d: "filter isdecimal ''(555) 010-1234'' = ''5550101234''"
    "filter isdecimal ''0101234'' = ''0101234''" "filter isdecimal ''12345'' = ''12345''"
    by code_simp+
  have h: "''(555) 010-1234'' \<noteq> []" "''(555) 010-1234'' \<noteq> ''nan''"
    "''0101234'' \<noteq> []" "''0101234'' \<noteq> ''nan''" "''12345'' \<noteq> []" "''12345'' \<noteq> ''nan''"
    by simp_all
  note T1 = clean_phone_formats [OF h(1,2), of DataTransformer_init, unfolded d]
  note T2 = clean_phone_formats [OF h(3,4), of DataTransformer_init, unfolded d]
  note T3 = clean_phone_formats [OF h(5,6), of DataTransformer_init, unfolded d]
  from T1 have "clean_phone DataTransformer_init ''(555) 010-1234''
      = (Inr (PyStr ''555-010-1234''), DataTransformer_init)" by simp
  moreover from T2 have "clean_phone DataTransformer_init ''0101234''
      = (Inr (PyStr ''010-1234''), DataTransformer_init)" by simp
  moreover from T3 have "clean_phone DataTransformer_init ''12345''
      = (Inr (PyStr ''12345''), DataTransformer_init)" by simp
  ultimately show ?thesis using h by simp
qed

subsection \<open>Column Normalizer and Schema Projector\<close>




lemma rows_map_to_schema:
  "list_all (\<lambda>r. length r = length (columns (map_to_schema df))) (rows (map_to_schema df))"
  by (simp add: map_to_schema_def Let_def list_all_iff)

lemma gpa_not_in_schema: "''gpa'' \<notin> set schema_columns"
  by (simp add: schema_columns_def)




subsection \<open>The whole pipeline\<close>

text \<open>
  C9. Every frame that \<^verbatim>\<open>transform\<close> returns has as its columns the fields of the fixed list
  that the renamed input has, in the order of the list; each of its rows has one cell for
  each of these columns; and \<^verbatim>\<open>gpa\<close> is never among them, whatever the input holds.
\<close>

theorem transform_projects_schema:
  assumes "transform lib self df = (Inr (out, rep), self')"
  shows "schema_columns = [''student_id'', ''email'', ''first_name'', ''last_name'',
                           ''year_level'', ''department'', ''status'', ''phone'', ''date_of_birth''] \<and>
         columns out
           = filter (\<lambda>c. c \<in> set (map (rename column_mapping) (columns df))) schema_columns \<and>
         subseq (columns out) schema_columns \<and>
         list_all (\<lambda>r. length r = length (columns out)) (rows out) \<and>
         ''gpa'' \<notin> set (columns out)"
proof -
  note cols = transform_shape(1) [OF assms]
  from transform_Inr [OF assms] obtain df3 where "out = map_to_schema df3" by blast
  then have "list_all (\<lambda>r. length r = length (columns out)) (rows out)"
    using rows_map_to_schema [of df3] by (simp only:)
  moreover have "subseq (columns out) schema_columns"
    unfolding cols by (rule subseq_filter_left)
  moreover have "''gpa'' \<notin> set (columns out)"
    unfolding cols using gpa_not_in_schema by simp
  ultimately show ?thesis
    using cols by (simp add: schema_columns_def)
qed

theorem transform_projects_schema_witness:
  "fst (transform example_builtins DataTransformer_init
          \<lparr>columns = [''GPA'', ''Student ID''], rows = [[''3.5'', ''1'']]\<rparr>)
     = Inr (\<lparr>columns = [''student_id''], rows = [[PyStr ''1'']]\<rparr>,
            \<lparr>original_count = 1, final_count = 1, duplicates_removed = 0,
             report_validation_errors = [], transformations = []\<rparr>) \<and>
   ''gpa'' \<notin> set [''student_id''] \<and>
   clean_gpa example_builtins DataTransformer_init ''3.5''
     = (Inr (PyFloat (Finite (7 / 2))), DataTransformer_init)"
proof -
  let ?df = "\<lparr>columns = [''GPA'', ''Student ID''], rows = [[''3.5'', ''1'']]\<rparr> :: string frame"
  let ?out = "\<lparr>columns = [''student_id''], rows = [[PyStr ''1'']]\<rparr> :: pyobj frame"
  let ?rep = "\<lparr>original_count = 1, final_count = 1, duplicates_removed = 0,
             report_validation_errors = [], transformations = []\<rparr>"
  have tr: "transform example_builtins DataTransformer_init ?df = (Inr (?out, ?rep), DataTransformer_init)"
    by code_simp
  have g: "clean_gpa example_builtins DataTransformer_init ''3.5''
     = (Inr (PyFloat (Finite (7 / 2))), DataTransformer_init)"
    by code_simp
  from transform_projects_schema [OF tr] have "''gpa'' \<notin> set (columns ?out)" by blast
  with tr g show ?thesis by simp
qed

text \<open>
  C8. What \<^verbatim>\<open>transform\<close> returns for a batch (the exception, or the normalized frame and the
  three counts of the report) does not depend on the transformer it runs on: any two runs
  on the same batch agree, and so do two runs on fresh transformers.
\<close>

theorem transform_deterministic:
  "map_sum id (\<lambda>(out, rep). (out, original_count rep, final_count rep, duplicates_removed rep))
     (fst (transform lib self1 df))
   = map_sum id (\<lambda>(out, rep). (out, original_count rep, final_count rep, duplicates_removed rep))
     (fst (transform lib self2 df))"
proof -
  have fresh: "map_sum id (\<lambda>(out, rep). (out, original_count rep, final_count rep, duplicates_removed rep))
     (fst (transform lib s df))
   = map_sum id (\<lambda>(out, rep). (out, original_count rep, final_count rep, duplicates_removed rep))
     (fst (transform lib DataTransformer_init df))" for s
    by (subst transform_append [of lib s df]) (auto split: prod.splits sum.splits)
  show ?thesis
    by (simp only: fresh [of self1] fresh [of self2])
qed

text \<open>
  C10. The two lists are state of the transformer and are never reset: when
  \<^verbatim>\<open>transform\<close> runs a second time on the same transformer, the lists of its report hold
  every entry the transformer held after the first run (what it held before that run,
  then the entries of that run), followed by the entries of the second run, which are those
  a fresh transformer records on the second batch.
\<close>

theorem transform_accumulates:
  assumes "transform lib self df1 = (r1, self1)"
    and "transform lib self1 df2 = (Inr (out2, rep2), self2)"
  shows "validation_errors self1
           = validation_errors self
             @ validation_errors (snd (transform lib DataTransformer_init df1)) \<and>
         transformation_log self1
           = transformation_log self
             @ transformation_log (snd (transform lib DataTransformer_init df1)) \<and>
         report_validation_errors rep2
           = validation_errors self1
             @ validation_errors (snd (transform lib DataTransformer_init df2)) \<and>
         transformations rep2
           = transformation_log self1
             @ transformation_log (snd (transform lib DataTransformer_init df2)) \<and>
         (\<forall>out1 rep1. r1 = Inr (out1, rep1) \<longrightarrow>
            report_validation_errors rep1 = validation_errors self1 \<and>
            transformations rep1 = transformation_log self1)"
proof -
  have state: "snd (transform lib s df) = append_logs s (snd (transform lib DataTransformer_init df))"
    for s df
    by (subst transform_append [of lib s df]) (auto split: prod.splits sum.splits)
  have s1: "self1 = append_logs self (snd (transform lib DataTransformer_init df1))"
    using state [of self df1] assms(1) by simp
  have s2: "self2 = append_logs self1 (snd (transform lib DataTransformer_init df2))"
    using state [of self1 df2] assms(2) by simp
  have rep2: "report_validation_errors rep2 = validation_errors self2"
    "transformations rep2 = transformation_log self2"
    using transform_shape(6,7) [OF assms(2)] by simp_all
  have rep1: "report_validation_errors rep1 = validation_errors self1 \<and>
      transformations rep1 = transformation_log self1" if "r1 = Inr (out1, rep1)" for out1 rep1
    using transform_shape(6,7) [of lib self df1 out1 rep1 self1] assms(1) that by simp
  have a: "validation_errors self1
           = validation_errors self
             @ validation_errors (snd (transform lib DataTransformer_init df1))"
    and b: "transformation_log self1
           = transformation_log self
             @ transformation_log (snd (transform lib DataTransformer_init df1))"
    by (subst s1, simp)+
  have c: "report_validation_errors rep2
           = validation_errors self1
             @ validation_errors (snd (transform lib DataTransformer_init df2))"
    and d: "transformations rep2
           = transformation_log self1
             @ transformation_log (snd (transform lib DataTransformer_init df2))"
    unfolding rep2 by (subst s2, simp)+
  from a b c d rep1 show ?thesis by blast
qed


theorem transform_accumulates_witness:
  "\<not> isl (fst (transform example_builtins
                 (snd (transform example_builtins DataTransformer_init sample_dataframe))
                 sample_dataframe)) \<and>
   report_validation_errors
     (snd (projr (fst (transform example_builtins
                        (snd (transform example_builtins DataTransformer_init sample_dataframe))
                        sample_dataframe))))
     = [\<lparr>field = ''email'', raw_value = ''invalid'', error = Invalid_email_format\<rparr>,
        \<lparr>field = ''year_level'', raw_value = ''5'', error = Year_out_of_range 5\<rparr>,
        \<lparr>field = ''email'', raw_value = ''invalid'', error = Invalid_email_format\<rparr>,
        \<lparr>field = ''year_level'', raw_value = ''5'', error = Year_out_of_range 5\<rparr>] \<and>
   transformations
     (snd (projr (fst (transform example_builtins
                        (snd (transform example_builtins DataTransformer_init sample_dataframe))
                        sample_dataframe))))
     = [DUPLICATE_REMOVED ''2'', DUPLICATE_REMOVED ''2'']"
proof -
  let ?run1 = "transform example_builtins DataTransformer_init sample_dataframe"
  let ?run2 = "transform example_builtins (snd ?run1) sample_dataframe"
  have e: "validation_errors (snd ?run1)
      = [\<lparr>field = ''email'', raw_value = ''invalid'', error = Invalid_email_format\<rparr>,
         \<lparr>field = ''year_level'', raw_value = ''5'', error = Year_out_of_range 5\<rparr>]"
    by code_simp
  have l: "transformation_log (snd ?run1) = [DUPLICATE_REMOVED ''2'']"
    by code_simp
  have init: "validation_errors DataTransformer_init = []" "transformation_log DataTransformer_init = []"
    by (simp_all add: DataTransformer_init_def)
  have ok: "\<not> isl (fst ?run2)"
    by code_simp
  then obtain out2 rep2 self2 where t2: "?run2 = (Inr (out2, rep2), self2)"
    by (cases ?run2, cases "fst ?run2") auto
  have t1: "?run1 = (fst ?run1, snd ?run1)" by simp
  note T = transform_accumulates [OF t1 t2]
  from T have "report_validation_errors rep2 = validation_errors (snd ?run1) @ validation_errors (snd ?run1)"
    and "transformations rep2 = transformation_log (snd ?run1) @ transformation_log (snd ?run1)"
    by blast+
  then have "report_validation_errors rep2
      = [\<lparr>field = ''email'', raw_value = ''invalid'', error = Invalid_email_format\<rparr>,
        \<lparr>field = ''year_level'', raw_value = ''5'', error = Year_out_of_range 5\<rparr>,
        \<lparr>field = ''email'', raw_value = ''invalid'', error = Invalid_email_format\<rparr>,
        \<lparr>field = ''year_level'', raw_value = ''5'', error = Year_out_of_range 5\<rparr>]"
    and "transformations rep2 = [DUPLICATE_REMOVED ''2'', DUPLICATE_REMOVED ''2'']"
    by (simp_all only: e l append.simps)
  moreover have "snd (projr (fst ?run2)) = rep2"
    by (simp only: t2 fst_conv snd_conv sum.sel)
  ultimately show ?thesis using ok by (simp only: simp_thms)
qed

theorem transform_deterministic_witness:
  "map_sum id (\<lambda>(out, rep). (out, original_count rep, final_count rep, duplicates_removed rep))
     (fst (transform example_builtins
             (snd (transform example_builtins DataTransformer_init sample_dataframe))
             sample_dataframe))
   = Inr (\<lparr>columns = [''student_id'', ''email'', ''year_level''],
           rows = [[PyStr ''1'', PyStr ''test1@example.com'', PyInt 1],
                   [PyStr ''2'', PyStr ''test2@example.com'', PyInt 2],
                   [PyStr ''3'', PyNone, PyInt 4]]\<rparr>, 4, 3, 1)"
proof -
  have "map_sum id (\<lambda>(out, rep). (out, original_count rep, final_count rep, duplicates_removed rep))
     (fst (transform example_builtins DataTransformer_init sample_dataframe))
   = Inr (\<lparr>columns = [''student_id'', ''email'', ''year_level''],
           rows = [[PyStr ''1'', PyStr ''test1@example.com'', PyInt 1],
                   [PyStr ''2'', PyStr ''test2@example.com'', PyInt 2],
                   [PyStr ''3'', PyNone, PyInt 4]]\<rparr>, 4, 3, 1)"
    by code_simp
  then show ?thesis
    by (simp only: transform_deterministic
        [of example_builtins "snd (transform example_builtins DataTransformer_init sample_dataframe)"
            sample_dataframe DataTransformer_init])
qed

end
